theory Spec2Isabelle
  imports Main "HOL-Library.Word"
begin

section \<open>Data model of src/Op/Op.cc\<close>

text \<open>
  The file implements \<open>RemoteOp\<close>, \<open>ServerOp\<close> and \<open>OpManager\<close> on top of a message
  transport. The transport, its message buffers and the driver are collaborators that are
  declared outside the file. They are modelled by what the file does with them:
  \<^item> a buffer pointer is a number, a nullable pointer an \<open>option\<close>;
  \<^item> every call that acts on a collaborator is recorded, in program order, in a trace
    of \<open>Event\<close>s;
  \<^item> every value read from a collaborator (\<open>getStatus\<close>, \<open>dropped\<close>, the driver's
    address functions) is a field of an environment \<open>Env\<close>, which may differ from one
    call to the next;
  \<^item> the messages that \<open>internal->receive()\<close> hands out during one \<open>poll()\<close> are a list
    of buffer pointers, each with the header that \<open>message->get\<close> reads from it.
\<close>

type_synonym InMessage = nat
type_synonym OutMessage = nat
type_synonym Address = "64 word"
type_synonym WireFormatAddress = "8 word list"
type_synonym StageId = "32 word"

text \<open>\<open>OutMessage::Status\<close>, with the values the file and its specification name.\<close>

datatype Status = Status_NOT_STARTED | Status_SENT | Status_COMPLETED | Status_FAILED

text \<open>\<open>RemoteOp::State\<close> and \<open>ServerOp::State\<close>.\<close>

datatype RemoteState = Remote_NOT_STARTED | Remote_IN_PROGRESS | Remote_COMPLETED | Remote_FAILED

datatype State = NOT_STARTED | IN_PROGRESS | COMPLETED | DROPPED | FAILED

text \<open>\<open>Protocol::OpId\<close>: the transport identifier and a sequence number.\<close>

record OpId =
  opTransportId :: "64 word"
  opSequence :: "64 word"

text \<open>\<open>Protocol::Message::Header\<close>.\<close>

record Header =
  headerOpId :: OpId
  headerStageId :: StageId
  headerReplyAddress :: WireFormatAddress

text \<open>
  The two stage markers and the header size come from \<open>Protocol.h\<close>, which is not part of
  the sources at hand: they are parameters of the model.
\<close>

record Protocol =
  INITIAL_REQUEST_ID :: StageId
  ULTIMATE_RESPONSE_ID :: StageId
  sizeofHeader :: nat

record Env =
  getStatus :: "OutMessage \<Rightarrow> Status"
  dropped :: "InMessage \<Rightarrow> bool"
  getLocalAddress :: Address
  getAddress :: "WireFormatAddress \<Rightarrow> Address"
  addressToWireFormat :: "Address \<Rightarrow> WireFormatAddress"

datatype Event =
    Transport_poll
  | Transport_alloc OutMessage
  | OutMessage_reserve OutMessage nat
  | OutMessage_prepend OutMessage Header
  | OutMessage_send OutMessage Address
  | OutMessage_cancel OutMessage
  | OutMessage_release OutMessage
  | InMessage_strip InMessage nat
  | InMessage_acknowledge InMessage
  | InMessage_fail InMessage
  | InMessage_release InMessage
  | WARNING string

text \<open>
  What stops the program: a failed \<open>assert\<close>, a call through a null (or dangling) pointer,
  and taking the spin lock of the manager while the same thread holds it. \<open>NoSuchObject\<close>
  is not an error of the program: it marks a call, in a sequence of calls, on an object
  that the application does not hold.
\<close>

datatype Error = AssertionFailed | NullDereference | Deadlock | NoSuchObject

text \<open>
  The model holds one \<open>OpManager\<close>, so a non-null \<open>OpManager*\<close> can only point at it.
\<close>

type_synonym OpManagerPtr = unit

record ServerOp =
  request :: "InMessage option"
  response :: "OutMessage option"
  transport :: "OpManagerPtr option"
  state :: State
  detached :: bool
  opId :: OpId
  stageId :: StageId
  replyAddress :: Address
  delegated :: bool

type_synonym RemoteOpPtr = nat

record RemoteOp =
  remoteRequest :: OutMessage
  remoteResponse :: "InMessage option"
  remoteOpId :: OpId
  remoteState :: RemoteState

text \<open>
  The members of the manager (\<open>OpManagerInternal\<close>: the identifier, the sequence counter,
  the map from operation ids to \<open>RemoteOp*\<close>, the pending and the detached \<open>ServerOp\<close>s),
  together with what they refer to: the \<open>RemoteOp\<close> objects of the application, by
  address, the number of buffers the transport has allocated, and the trace.
\<close>

record World =
  transportId :: "64 word"
  nextOpSequenceNumber :: "64 word"
  remoteOps :: "OpId \<rightharpoonup> RemoteOpPtr"
  pendingServerOps :: "ServerOp list"
  detachedServerOps :: "ServerOp list"
  remoteHeap :: "RemoteOpPtr \<rightharpoonup> RemoteOp"
  allocated :: nat
  trace :: "Event list"

section \<open>ServerOp\<close>

text \<open>\<open>Protocol::OpId()\<close> and \<open>ServerOp::ServerOp()\<close>.\<close>

definition OpId_default :: OpId where
  "OpId_default = \<lparr>opTransportId = 0, opSequence = 0\<rparr>"

definition ServerOp_empty :: ServerOp where
  "ServerOp_empty =
     \<lparr>request = None, response = None, transport = None, state = NOT_STARTED,
      detached = False, opId = OpId_default, stageId = 0, replyAddress = 0,
      delegated = False\<rparr>"

text \<open>\<open>ServerOp::operator bool\<close>.\<close>

definition ServerOp_bool :: "ServerOp \<Rightarrow> bool" where
  "ServerOp_bool op = (request op \<noteq> None)"

text \<open>
  \<open>ServerOp::makeProgress\<close>. The result is the returned state (\<open>state.load()\<close> at the end),
  the op as the call leaves it, and the collaborator calls it made.
\<close>

definition outState :: "Env \<Rightarrow> ServerOp \<Rightarrow> Status" where
  "outState env op =
     (case response op of None \<Rightarrow> Status_NOT_STARTED | Some r \<Rightarrow> getStatus env r)"

definition returnState :: "ServerOp \<Rightarrow> Event list \<Rightarrow> Error + (State \<times> ServerOp \<times> Event list)" where
  "returnState op evs = Inr (state op, op, evs)"

definition makeProgress ::
  "Protocol \<Rightarrow> Env \<Rightarrow> ServerOp \<Rightarrow> Error + (State \<times> ServerOp \<times> Event list)" where
  "makeProgress P env op =
     (case state op of
        NOT_STARTED \<Rightarrow> returnState op []
      | IN_PROGRESS \<Rightarrow>
          (case request op of
             None \<Rightarrow> Inl AssertionFailed
           | Some req \<Rightarrow>
               if dropped env req then returnState (op\<lparr>state := DROPPED\<rparr>) []
               else if outState env op = Status_COMPLETED
                       \<or> (outState env op = Status_SENT \<and> \<not> delegated op)
               then returnState (op\<lparr>state := COMPLETED\<rparr>)
                      (if stageId op \<noteq> INITIAL_REQUEST_ID P
                       then [InMessage_acknowledge req] else [])
               else if outState env op = Status_FAILED
               then (case response op of
                       None \<Rightarrow> Inl NullDereference
                     | Some r \<Rightarrow> returnState (op\<lparr>state := FAILED\<rparr>) [OutMessage_cancel r])
               else returnState op [])
      | COMPLETED \<Rightarrow> returnState op []
      | DROPPED \<Rightarrow> returnState op []
      | FAILED \<Rightarrow>
          if detached op
          then (case request op of
                  None \<Rightarrow> Inl AssertionFailed
                | Some req \<Rightarrow> returnState op [InMessage_fail req])
          else returnState op [])"

text \<open>
  \<open>ServerOp::reply\<close> and \<open>ServerOp::delegate\<close>. Both go through \<open>transport->driver\<close> and
  \<open>response\<close> without a check, after the check of \<open>request\<close>.
\<close>

definition reply :: "Protocol \<Rightarrow> Env \<Rightarrow> ServerOp \<Rightarrow> Error + (ServerOp \<times> Event list)" where
  "reply P env op =
     (case request op of
        None \<Rightarrow> Inr (op, [WARNING ''Calling reply() on empty ServerOp; nothing will be sent.''])
      | Some req \<Rightarrow>
          (case transport op of
             None \<Rightarrow> Inl NullDereference
           | Some t \<Rightarrow>
               (case response op of
                  None \<Rightarrow> Inl NullDereference
                | Some r \<Rightarrow>
                    Inr (op,
                      [OutMessage_prepend r
                         \<lparr>headerOpId = opId op,
                          headerStageId = ULTIMATE_RESPONSE_ID P,
                          headerReplyAddress = addressToWireFormat env (replyAddress op)\<rparr>,
                       OutMessage_send r (replyAddress op)]))))"

definition delegate ::
  "Protocol \<Rightarrow> Env \<Rightarrow> Address \<Rightarrow> ServerOp \<Rightarrow> Error + (ServerOp \<times> Event list)" where
  "delegate P env destination op =
     (case request op of
        None \<Rightarrow>
          Inr (op, [WARNING ''Calling delegate() on empty ServerOp; nothing will be sent.''])
      | Some req \<Rightarrow>
          (case transport op of
             None \<Rightarrow> Inl NullDereference
           | Some t \<Rightarrow>
               (case response op of
                  None \<Rightarrow> Inl NullDereference
                | Some r \<Rightarrow>
                    Inr (op\<lparr>delegated := True\<rparr>,
                      [OutMessage_prepend r
                         \<lparr>headerOpId = opId op,
                          headerStageId = stageId op + 1,
                          headerReplyAddress = addressToWireFormat env (replyAddress op)\<rparr>,
                       OutMessage_send r destination]))))"

text \<open>
  The move constructor and the move assignment: the target takes every field of \<open>other\<close>,
  and \<open>other\<close> is reset to the fields of the default constructor. The result is the pair
  (target, other). The assignment does not release what the target held.
\<close>

definition ServerOp_move :: "ServerOp \<Rightarrow> ServerOp \<times> ServerOp" where
  "ServerOp_move other = (other, ServerOp_empty)"

text \<open>
  \<open>ServerOp::~ServerOp\<close>. The first branch takes the lock of the manager: \<open>locked\<close> says
  that the calling thread holds it already (the destructor runs inside \<open>poll()\<close> or
  \<open>~OpManager()\<close>), and then the spin lock never returns.
\<close>

definition releaseBuffers :: "ServerOp \<Rightarrow> Event list" where
  "releaseBuffers op =
     (case request op of None \<Rightarrow> [] | Some req \<Rightarrow> [InMessage_release req]) @
     (case response op of None \<Rightarrow> [] | Some r \<Rightarrow> [OutMessage_release r])"

definition ServerOp_dtor :: "bool \<Rightarrow> ServerOp \<Rightarrow> World \<Rightarrow> Error + World" where
  "ServerOp_dtor locked op w =
     (if transport op \<noteq> None \<and> \<not> detached op \<and> state op \<noteq> NOT_STARTED
      then (if locked then Inl Deadlock
            else Inr (w\<lparr>detachedServerOps := detachedServerOps w @ [op\<lparr>detached := True\<rparr>]\<rparr>))
      else Inr (w\<lparr>trace := trace w @ releaseBuffers op\<rparr>))"

section \<open>RemoteOp\<close>

text \<open>\<open>RemoteOp::RemoteOp\<close>, for the object at address \<open>p\<close>.\<close>

definition RemoteOp_ctor :: "Protocol \<Rightarrow> RemoteOpPtr \<Rightarrow> World \<Rightarrow> World" where
  "RemoteOp_ctor P p w =
     (let r = allocated w in
      w\<lparr>remoteHeap := (remoteHeap w)(p \<mapsto>
           \<lparr>remoteRequest = r, remoteResponse = None, remoteOpId = OpId_default,
            remoteState = Remote_NOT_STARTED\<rparr>),
        allocated := Suc r,
        trace := trace w @ [Transport_alloc r, OutMessage_reserve r (sizeofHeader P)]\<rparr>)"

text \<open>\<open>RemoteOp::~RemoteOp\<close>.\<close>

definition RemoteOp_dtor :: "RemoteOpPtr \<Rightarrow> World \<Rightarrow> Error + World" where
  "RemoteOp_dtor p w =
     (case remoteHeap w p of
        None \<Rightarrow> Inl NullDereference
      | Some r \<Rightarrow>
          Inr (w\<lparr>trace := trace w @ [OutMessage_release (remoteRequest r)] @
                   (case remoteResponse r of None \<Rightarrow> [] | Some m \<Rightarrow> [InMessage_release m]),
                 remoteOps := (remoteOps w)(remoteOpId r := None),
                 remoteHeap := (remoteHeap w)(p := None)\<rparr>))"

text \<open>
  \<open>RemoteOp::send\<close>. \<open>remoteOps.insert\<close> is the insertion of a map with unique keys: it
  leaves an entry that is there already as it is.
\<close>

definition RemoteOp_send ::
  "Protocol \<Rightarrow> Env \<Rightarrow> RemoteOpPtr \<Rightarrow> Address \<Rightarrow> World \<Rightarrow> Error + World" where
  "RemoteOp_send P env p destination w =
     (case remoteHeap w p of
        None \<Rightarrow> Inl NullDereference
      | Some r \<Rightarrow>
          (let newId = \<lparr>opTransportId = transportId w, opSequence = nextOpSequenceNumber w\<rparr>;
               outboundHeader =
                 \<lparr>headerOpId = newId, headerStageId = INITIAL_REQUEST_ID P,
                  headerReplyAddress = addressToWireFormat env (getLocalAddress env)\<rparr>
           in Inr (w\<lparr>nextOpSequenceNumber := nextOpSequenceNumber w + 1,
                     remoteHeap := (remoteHeap w)(p \<mapsto>
                        r\<lparr>remoteState := Remote_IN_PROGRESS, remoteOpId := newId\<rparr>),
                     remoteOps :=
                       (case remoteOps w newId of
                          None \<Rightarrow> (remoteOps w)(newId \<mapsto> p)
                        | Some q \<Rightarrow> remoteOps w),
                     trace := trace w @
                       [OutMessage_prepend (remoteRequest r) outboundHeader,
                        OutMessage_send (remoteRequest r) destination]\<rparr>)))"

text \<open>\<open>RemoteOp::isReady\<close>, on the object and on the object at an address.\<close>

definition isReady :: "Env \<Rightarrow> RemoteOp \<Rightarrow> bool \<times> RemoteOp" where
  "isReady env r =
     (case remoteState r of
        Remote_NOT_STARTED \<Rightarrow> (False, r)
      | Remote_IN_PROGRESS \<Rightarrow>
          if getStatus env (remoteRequest r) = Status_FAILED
          then (True, r\<lparr>remoteState := Remote_FAILED\<rparr>)
          else (False, r)
      | Remote_COMPLETED \<Rightarrow> (True, r)
      | Remote_FAILED \<Rightarrow> (True, r))"

definition RemoteOp_isReady :: "Env \<Rightarrow> RemoteOpPtr \<Rightarrow> World \<Rightarrow> Error + (bool \<times> World)" where
  "RemoteOp_isReady env p w =
     (case remoteHeap w p of
        None \<Rightarrow> Inl NullDereference
      | Some r \<Rightarrow>
          Inr (fst (isReady env r), w\<lparr>remoteHeap := (remoteHeap w)(p \<mapsto> snd (isReady env r))\<rparr>))"

section \<open>OpManager\<close>

text \<open>
  \<open>OpManager::OpManager\<close>. The first sequence number is set by \<open>OpManagerInternal\<close>, which
  is not part of the sources at hand: it is a parameter.
\<close>

definition OpManager_ctor :: "64 word \<Rightarrow> 64 word \<Rightarrow> World" where
  "OpManager_ctor tid firstSequence =
     \<lparr>transportId = tid, nextOpSequenceNumber = firstSequence, remoteOps = Map.empty,
      pendingServerOps = [], detachedServerOps = [], remoteHeap = Map.empty,
      allocated = 0, trace = []\<rparr>"

text \<open>
  \<open>OpManager::receiveServerOp\<close>. \<open>pop_front\<close> destroys the moved-from front, which is an
  empty op and releases nothing. \<open>internal->alloc()\<close> hands out the next buffer.
\<close>

definition receiveServerOp :: "Protocol \<Rightarrow> World \<Rightarrow> ServerOp \<times> World" where
  "receiveServerOp P w =
     (case pendingServerOps w of
        [] \<Rightarrow> (ServerOp_empty, w)
      | front # rest \<Rightarrow>
          (let r = allocated w in
           (fst (ServerOp_move front)
              \<lparr>response := Some r, transport := Some (), state := IN_PROGRESS\<rparr>,
            w\<lparr>pendingServerOps := rest,
              allocated := Suc r,
              trace := trace w @ [Transport_alloc r, OutMessage_reserve r (sizeofHeader P)]\<rparr>)))"

text \<open>
  \<open>OpManager::poll\<close>, in three parts: the body of the loop over the received messages,
  the loop, and the loop over the detached ops. The \<open>assert\<close> of the last loop is kept.
\<close>

definition requestOp :: "Env \<Rightarrow> InMessage \<Rightarrow> Header \<Rightarrow> ServerOp" where
  "requestOp env message header =
     ServerOp_empty
       \<lparr>request := Some message, opId := headerOpId header, stageId := headerStageId header,
        replyAddress := getAddress env (headerReplyAddress header)\<rparr>"

definition processMessage ::
  "Protocol \<Rightarrow> Env \<Rightarrow> InMessage \<times> Header \<Rightarrow> World \<Rightarrow> Error + World" where
  "processMessage P env mh w =
     (let message = fst mh; header = snd mh;
          w1 = w\<lparr>trace := trace w @ [InMessage_strip message (sizeofHeader P)]\<rparr>
      in if headerStageId header = ULTIMATE_RESPONSE_ID P
         then (case remoteOps w1 (headerOpId header) of
                 Some p \<Rightarrow>
                   (case remoteHeap w1 p of
                      None \<Rightarrow> Inl NullDereference
                    | Some r \<Rightarrow>
                        Inr (w1\<lparr>remoteHeap := (remoteHeap w1)(p \<mapsto>
                                  r\<lparr>remoteResponse := Some message,
                                    remoteState := Remote_COMPLETED\<rparr>),
                                trace := trace w1 @ [OutMessage_cancel (remoteRequest r)]\<rparr>))
               | None \<Rightarrow> Inr (w1\<lparr>trace := trace w1 @ [InMessage_release message]\<rparr>))
         else Inr (w1\<lparr>pendingServerOps :=
                         pendingServerOps w1 @ [requestOp env message header]\<rparr>))"

fun processMessages ::
  "Protocol \<Rightarrow> Env \<Rightarrow> (InMessage \<times> Header) list \<Rightarrow> World \<Rightarrow> Error + World" where
  "processMessages P env [] w = Inr w"
| "processMessages P env (mh # rest) w =
     (case processMessage P env mh w of
        Inl e \<Rightarrow> Inl e
      | Inr w1 \<Rightarrow> processMessages P env rest w1)"

fun checkDetached ::
  "Protocol \<Rightarrow> Env \<Rightarrow> ServerOp list \<Rightarrow> World \<Rightarrow> Error + (ServerOp list \<times> World)" where
  "checkDetached P env [] w = Inr ([], w)"
| "checkDetached P env (op # rest) w =
     (case makeProgress P env op of
        Inl e \<Rightarrow> Inl e
      | Inr (st, op1, evs) \<Rightarrow>
          (let w1 = w\<lparr>trace := trace w @ evs\<rparr> in
           if st = NOT_STARTED then Inl AssertionFailed
           else if st = IN_PROGRESS
           then (case checkDetached P env rest w1 of
                   Inl e \<Rightarrow> Inl e
                 | Inr (kept, w2) \<Rightarrow> Inr (op1 # kept, w2))
           else (case ServerOp_dtor True op1 w1 of
                   Inl e \<Rightarrow> Inl e
                 | Inr w2 \<Rightarrow> checkDetached P env rest w2)))"

definition poll ::
  "Protocol \<Rightarrow> Env \<Rightarrow> (InMessage \<times> Header) list \<Rightarrow> World \<Rightarrow> Error + World" where
  "poll P env received w =
     (case processMessages P env received (w\<lparr>trace := trace w @ [Transport_poll]\<rparr>) of
        Inl e \<Rightarrow> Inl e
      | Inr w1 \<Rightarrow>
          (case checkDetached P env (detachedServerOps w1) w1 of
             Inl e \<Rightarrow> Inl e
           | Inr (kept, w2) \<Rightarrow> Inr (w2\<lparr>detachedServerOps := kept\<rparr>)))"

text \<open>\<open>OpManager::~OpManager\<close>: every erased op is destroyed with the lock held.\<close>

fun destroyAll :: "ServerOp list \<Rightarrow> World \<Rightarrow> Error + World" where
  "destroyAll [] w = Inr w"
| "destroyAll (op # rest) w =
     (case ServerOp_dtor True op w of
        Inl e \<Rightarrow> Inl e
      | Inr w1 \<Rightarrow> destroyAll rest w1)"

definition OpManager_dtor :: "World \<Rightarrow> Error + World" where
  "OpManager_dtor w =
     (case destroyAll (pendingServerOps w) (w\<lparr>remoteOps := Map.empty\<rparr>) of
        Inl e \<Rightarrow> Inl e
      | Inr w1 \<Rightarrow>
          (case destroyAll (detachedServerOps w1) (w1\<lparr>pendingServerOps := []\<rparr>) of
             Inl e \<Rightarrow> Inl e
           | Inr w2 \<Rightarrow> Inr (w2\<lparr>detachedServerOps := []\<rparr>)))"

section \<open>The application\<close>

text \<open>
  The calls an application can make, and a sequence of them. The application holds
  \<open>ServerOp\<close> objects, named by their position in a list, and \<open>RemoteOp\<close> objects, named by
  their address. Each call that reads a collaborator carries the environment it sees.
  \<open>Call_move i j\<close> is \<open>held[i] = std::move(held[j])\<close>; \<open>Call_destroy i\<close> ends the lifetime of
  the \<open>ServerOp\<close> at \<open>i\<close>.
\<close>

datatype Call =
    Call_poll Env "(InMessage \<times> Header) list"
  | Call_receiveServerOp
  | Call_ServerOp
  | Call_makeProgress Env nat
  | Call_reply Env nat
  | Call_delegate Env nat Address
  | Call_move nat nat
  | Call_destroy nat
  | Call_RemoteOp RemoteOpPtr
  | Call_send Env RemoteOpPtr Address
  | Call_isReady Env RemoteOpPtr
  | Call_destroyRemote RemoteOpPtr

type_synonym System = "World \<times> ServerOp list"

fun apiCall :: "Protocol \<Rightarrow> Call \<Rightarrow> System \<Rightarrow> Error + System" where
  "apiCall P (Call_poll env received) (w, held) =
     (case poll P env received w of Inl e \<Rightarrow> Inl e | Inr w1 \<Rightarrow> Inr (w1, held))"
| "apiCall P Call_receiveServerOp (w, held) =
     (case receiveServerOp P w of (op, w1) \<Rightarrow> Inr (w1, held @ [op]))"
| "apiCall P Call_ServerOp (w, held) = Inr (w, held @ [ServerOp_empty])"
| "apiCall P (Call_makeProgress env i) (w, held) =
     (if i < length held
      then (case makeProgress P env (held ! i) of
              Inl e \<Rightarrow> Inl e
            | Inr (st, op1, evs) \<Rightarrow> Inr (w\<lparr>trace := trace w @ evs\<rparr>, held[i := op1]))
      else Inl NoSuchObject)"
| "apiCall P (Call_reply env i) (w, held) =
     (if i < length held
      then (case reply P env (held ! i) of
              Inl e \<Rightarrow> Inl e
            | Inr (op1, evs) \<Rightarrow> Inr (w\<lparr>trace := trace w @ evs\<rparr>, held[i := op1]))
      else Inl NoSuchObject)"
| "apiCall P (Call_delegate env i destination) (w, held) =
     (if i < length held
      then (case delegate P env destination (held ! i) of
              Inl e \<Rightarrow> Inl e
            | Inr (op1, evs) \<Rightarrow> Inr (w\<lparr>trace := trace w @ evs\<rparr>, held[i := op1]))
      else Inl NoSuchObject)"
| "apiCall P (Call_move i j) (w, held) =
     (if i < length held \<and> j < length held
      then (case ServerOp_move (held ! j) of
              (target, other) \<Rightarrow> Inr (w, held[i := target, j := other]))
      else Inl NoSuchObject)"
| "apiCall P (Call_destroy i) (w, held) =
     (if i < length held
      then (case ServerOp_dtor False (held ! i) w of
              Inl e \<Rightarrow> Inl e
            | Inr w1 \<Rightarrow> Inr (w1, take i held @ drop (Suc i) held))
      else Inl NoSuchObject)"
| "apiCall P (Call_RemoteOp p) (w, held) =
     (if remoteHeap w p = None then Inr (RemoteOp_ctor P p w, held) else Inl NoSuchObject)"
| "apiCall P (Call_send env p destination) (w, held) =
     (case RemoteOp_send P env p destination w of Inl e \<Rightarrow> Inl e | Inr w1 \<Rightarrow> Inr (w1, held))"
| "apiCall P (Call_isReady env p) (w, held) =
     (case RemoteOp_isReady env p w of Inl e \<Rightarrow> Inl e | Inr (b, w1) \<Rightarrow> Inr (w1, held))"
| "apiCall P (Call_destroyRemote p) (w, held) =
     (case RemoteOp_dtor p w of Inl e \<Rightarrow> Inl e | Inr w1 \<Rightarrow> Inr (w1, held))"

fun run :: "Protocol \<Rightarrow> Call list \<Rightarrow> System \<Rightarrow> Error + System" where
  "run P [] s = Inr s"
| "run P (c # rest) s =
     (case apiCall P c s of Inl e \<Rightarrow> Inl e | Inr s1 \<Rightarrow> run P rest s1)"

text \<open>A fresh manager, with an application that holds nothing yet.\<close>

definition start :: "64 word \<Rightarrow> 64 word \<Rightarrow> System" where
  "start tid firstSequence = (OpManager_ctor tid firstSequence, [])"

section \<open>Notions of the statements\<close>

text \<open>
  The three shapes a \<open>ServerOp\<close> takes: in the pending queue, in the hands of the
  application, and in the detached list.
\<close>

definition pendingOk :: "ServerOp \<Rightarrow> bool" where
  "pendingOk op =
     (request op \<noteq> None \<and> response op = None \<and> transport op = None \<and>
      state op = NOT_STARTED \<and> \<not> detached op \<and> \<not> delegated op)"

definition claimedOk :: "ServerOp \<Rightarrow> bool" where
  "claimedOk op =
     (request op \<noteq> None \<and> response op \<noteq> None \<and> transport op \<noteq> None \<and>
      state op \<noteq> NOT_STARTED)"

definition heldOk :: "ServerOp \<Rightarrow> bool" where
  "heldOk op = (op = ServerOp_empty \<or> (claimedOk op \<and> \<not> detached op))"

definition detachedOk :: "ServerOp \<Rightarrow> bool" where
  "detachedOk op = (claimedOk op \<and> detached op)"

definition systemOk :: "System \<Rightarrow> bool" where
  "systemOk s =
     (list_all pendingOk (pendingServerOps (fst s)) \<and>
      list_all detachedOk (detachedServerOps (fst s)) \<and>
      list_all heldOk (snd s))"

text \<open>What one call of \<open>makeProgress\<close> leaves and emits, where it returns.\<close>

definition afterProgress :: "Protocol \<Rightarrow> Env \<Rightarrow> ServerOp \<Rightarrow> ServerOp" where
  "afterProgress P env op =
     (case makeProgress P env op of Inl e \<Rightarrow> op | Inr (st, op1, evs) \<Rightarrow> op1)"

definition progressEvents :: "Protocol \<Rightarrow> Env \<Rightarrow> ServerOp \<Rightarrow> Event list" where
  "progressEvents P env op =
     (case makeProgress P env op of Inl e \<Rightarrow> [] | Inr (st, op1, evs) \<Rightarrow> evs)"

text \<open>
  What the loop of \<open>poll\<close> over the detached ops emits for one op: the calls of
  \<open>makeProgress\<close>, and the release of the buffers if the op does not stay \<open>IN_PROGRESS\<close>.
\<close>

definition detachedEvents :: "Protocol \<Rightarrow> Env \<Rightarrow> ServerOp \<Rightarrow> Event list" where
  "detachedEvents P env op =
     progressEvents P env op @
     (if state (afterProgress P env op) = IN_PROGRESS then []
      else releaseBuffers (afterProgress P env op))"


text \<open>\<open>receiveServerOp\<close> called \<open>n\<close> times in a row.\<close>

fun receiveServerOps :: "Protocol \<Rightarrow> nat \<Rightarrow> World \<Rightarrow> ServerOp list \<times> World" where
  "receiveServerOps P 0 w = ([], w)"
| "receiveServerOps P (Suc n) w =
     (case receiveServerOp P w of
        (op, w1) \<Rightarrow>
          (case receiveServerOps P n w1 of (ops, w2) \<Rightarrow> (op # ops, w2)))"

text \<open>The order of the states of a \<open>RemoteOp\<close> that the code keeps to.\<close>

fun remoteRank :: "RemoteState \<Rightarrow> nat" where
  "remoteRank Remote_NOT_STARTED = 0"
| "remoteRank Remote_IN_PROGRESS = 1"
| "remoteRank Remote_FAILED = 2"
| "remoteRank Remote_COMPLETED = 3"

text \<open>
  A sequence of \<open>send\<close>, \<open>isReady\<close> and \<open>poll\<close> calls, and the requirement of \<open>send\<close> along
  it: each \<open>send\<close> is made on an op that is \<open>NOT_STARTED\<close> when it is made.
\<close>

fun remoteCall :: "Call \<Rightarrow> bool" where
  "remoteCall (Call_poll env received) = True"
| "remoteCall (Call_send env p destination) = True"
| "remoteCall (Call_isReady env p) = True"
| "remoteCall c = False"

fun sendAllowed :: "Call \<Rightarrow> World \<Rightarrow> bool" where
  "sendAllowed (Call_send env p destination) w =
     (case remoteHeap w p of None \<Rightarrow> False | Some r \<Rightarrow> remoteState r = Remote_NOT_STARTED)"
| "sendAllowed c w = True"

fun sendsAllowed :: "Protocol \<Rightarrow> Call list \<Rightarrow> System \<Rightarrow> bool" where
  "sendsAllowed P [] s = True"
| "sendsAllowed P (c # rest) s =
     (sendAllowed c (fst s) \<and>
      (case apiCall P c s of Inl e \<Rightarrow> True | Inr s1 \<Rightarrow> sendsAllowed P rest s1))"

text \<open>Reading the outcome of a sequence of calls.\<close>

definition remoteStateAt :: "RemoteOpPtr \<Rightarrow> Error + System \<Rightarrow> RemoteState option" where
  "remoteStateAt p outcome =
     (case outcome of
        Inl e \<Rightarrow> None
      | Inr s \<Rightarrow> map_option remoteState (remoteHeap (fst s) p))"

definition traceOf :: "Error + System \<Rightarrow> Event list option" where
  "traceOf outcome = (case outcome of Inl e \<Rightarrow> None | Inr s \<Rightarrow> Some (trace (fst s)))"

definition detachedOf :: "Error + System \<Rightarrow> ServerOp list option" where
  "detachedOf outcome =
     (case outcome of Inl e \<Rightarrow> None | Inr s \<Rightarrow> Some (detachedServerOps (fst s)))"

section \<open>Concrete inputs\<close>

definition protocol0 :: Protocol where
  "protocol0 = \<lparr>INITIAL_REQUEST_ID = 0, ULTIMATE_RESPONSE_ID = - 1, sizeofHeader = 32\<rparr>"

definition envWith :: "Status \<Rightarrow> bool \<Rightarrow> Env" where
  "envWith s d =
     \<lparr>getStatus = (\<lambda>m. s), dropped = (\<lambda>m. d), getLocalAddress = 1,
      getAddress = (\<lambda>a. 2), addressToWireFormat = (\<lambda>a. [])\<rparr>"

definition claimedOp :: "StageId \<Rightarrow> ServerOp" where
  "claimedOp sid =
     \<lparr>request = Some 7, response = Some 8, transport = Some (), state = IN_PROGRESS,
      detached = False, opId = \<lparr>opTransportId = 1, opSequence = 1\<rparr>, stageId = sid,
      replyAddress = 2, delegated = False\<rparr>"

definition header0 :: "StageId \<Rightarrow> Header" where
  "header0 sid =
     \<lparr>headerOpId = \<lparr>opTransportId = 1, opSequence = 1\<rparr>, headerStageId = sid,
      headerReplyAddress = []\<rparr>"

definition quiet :: Env where
  "quiet = envWith Status_NOT_STARTED False"

definition worldWith :: "ServerOp list \<Rightarrow> ServerOp list \<Rightarrow> nat \<Rightarrow> Event list \<Rightarrow> World" where
  "worldWith pending detachedOps n events =
     \<lparr>transportId = 1, nextOpSequenceNumber = 1, remoteOps = Map.empty,
      pendingServerOps = pending, detachedServerOps = detachedOps, remoteHeap = Map.empty,
      allocated = n, trace = events\<rparr>"

definition receivedOp :: ServerOp where
  "receivedOp = (claimedOp 1)\<lparr>response := Some 0\<rparr>"

definition requestWorld :: World where
  "requestWorld =
     worldWith [requestOp quiet 7 (header0 1)] [] 0 [Transport_poll, InMessage_strip 7 32]"

definition claimedWorld :: World where
  "claimedWorld =
     worldWith [] [] 1
       [Transport_poll, InMessage_strip 7 32, Transport_alloc 0, OutMessage_reserve 0 32]"

definition abandonedWorld :: World where
  "abandonedWorld =
     worldWith [] [receivedOp\<lparr>detached := True\<rparr>] 1
       [Transport_poll, InMessage_strip 7 32, Transport_alloc 0, OutMessage_reserve 0 32,
        OutMessage_prepend 0 (header0 (- 1)), OutMessage_send 0 2]"

definition claimScript :: "Call list" where
  "claimScript = [Call_poll quiet [(7, header0 1)], Call_receiveServerOp]"

definition abandonScript :: "Call list" where
  "abandonScript = claimScript @ [Call_reply quiet 0, Call_destroy 0]"

definition callerScript :: "Call list" where
  "callerScript =
     [Call_send quiet 5 9, Call_isReady (envWith Status_FAILED False) 5,
      Call_poll quiet [(3, header0 (- 1))]]"

definition remoteOp0 :: "RemoteState \<Rightarrow> RemoteOp" where
  "remoteOp0 st =
     \<lparr>remoteRequest = 4, remoteResponse = None,
      remoteOpId = \<lparr>opTransportId = 1, opSequence = 1\<rparr>, remoteState = st\<rparr>"

definition callerWorld :: World where
  "callerWorld =
     \<lparr>transportId = 1, nextOpSequenceNumber = 2,
      remoteOps = [\<lparr>opTransportId = 1, opSequence = 1\<rparr> \<mapsto> 5],
      pendingServerOps = [], detachedServerOps = [],
      remoteHeap = [5 \<mapsto> remoteOp0 Remote_IN_PROGRESS], allocated = 5, trace = []\<rparr>"

definition queueWorld :: World where
  "queueWorld =
     worldWith [requestOp quiet 7 (header0 0), requestOp quiet 9 (header0 1)] [] 0
       [Transport_poll, InMessage_strip 7 32, InMessage_strip 3 32, InMessage_release 3,
        InMessage_strip 9 32]"

section \<open>The shapes of a ServerOp are kept\<close>

lemma makeProgress_result:
  assumes "makeProgress P env op = Inr (st, op1, evs)"
  shows "op1 = op\<lparr>state := st\<rparr>" and "st = NOT_STARTED \<longleftrightarrow> state op = NOT_STARTED"
    and "st = IN_PROGRESS \<Longrightarrow> state op = IN_PROGRESS"
  using assms
  by (auto simp: makeProgress_def returnState_def
      split: State.splits option.splits if_splits)

lemma makeProgress_claimed:
  assumes "claimedOk op"
  shows "\<exists>st evs. makeProgress P env op = Inr (st, op\<lparr>state := st\<rparr>, evs) \<and> st \<noteq> NOT_STARTED"
  using assms
  by (cases "state op")
    (auto simp: makeProgress_def returnState_def claimedOk_def)

lemma makeProgress_empty [simp]:
  "makeProgress P env ServerOp_empty = Inr (NOT_STARTED, ServerOp_empty, [])"
  by (simp add: makeProgress_def returnState_def ServerOp_empty_def)

lemma claimedOk_state [simp]:
  "st \<noteq> NOT_STARTED \<Longrightarrow> claimedOk op \<Longrightarrow> claimedOk (op\<lparr>state := st\<rparr>)"
  by (simp add: claimedOk_def)

lemma makeProgress_heldOk:
  assumes "heldOk op" and "makeProgress P env op = Inr (st, op1, evs)"
  shows "heldOk op1"
proof (cases "op = ServerOp_empty")
  case True
  with assms(2) show ?thesis by (simp add: heldOk_def)
next
  case False
  with assms(1) have c: "claimedOk op" and d: "\<not> detached op" by (auto simp: heldOk_def)
  from makeProgress_claimed [OF c, of P env] assms(2)
  have "op1 = op\<lparr>state := st\<rparr>" and "st \<noteq> NOT_STARTED" by auto
  with c d show ?thesis by (simp add: heldOk_def)
qed

lemma reply_heldOk:
  assumes "heldOk op" and "reply P env op = Inr (op1, evs)"
  shows "heldOk op1"
  using assms by (auto simp: reply_def split: option.splits)

lemma delegate_heldOk:
  assumes "heldOk op" and "delegate P env d op = Inr (op1, evs)"
  shows "heldOk op1"
  using assms
  by (auto simp: delegate_def heldOk_def claimedOk_def ServerOp_empty_def split: option.splits)

lemma dtor_locked_released:
  assumes "pendingOk op \<or> detachedOk op"
  shows "ServerOp_dtor locked op w = Inr (w\<lparr>trace := trace w @ releaseBuffers op\<rparr>)"
  using assms by (auto simp: ServerOp_dtor_def pendingOk_def detachedOk_def)

lemma checkDetached_ok:
  assumes "list_all detachedOk ds"
  shows "checkDetached P env ds w =
           Inr (filter (\<lambda>op. state op = IN_PROGRESS) (map (afterProgress P env) ds),
                w\<lparr>trace := trace w @ concat (map (detachedEvents P env) ds)\<rparr>)"
  using assms
proof (induction ds arbitrary: w)
  case Nil
  then show ?case by simp
next
  case (Cons op ds)
  then have ok: "detachedOk op" and rest: "list_all detachedOk ds" by simp_all
  from ok have c: "claimedOk op" and d: "detached op" by (simp_all add: detachedOk_def)
  from makeProgress_claimed [OF c, of P env] obtain st evs
    where mp: "makeProgress P env op = Inr (st, op\<lparr>state := st\<rparr>, evs)" and st: "st \<noteq> NOT_STARTED"
    by blast
  have ap: "afterProgress P env op = op\<lparr>state := st\<rparr>" and pe: "progressEvents P env op = evs"
    using mp by (simp_all add: afterProgress_def progressEvents_def)
  show ?case
  proof (cases "st = IN_PROGRESS")
    case True
    then show ?thesis
      using mp st ap pe Cons.IH [OF rest] by (simp add: detachedEvents_def)
  next
    case False
    have "detachedOk (op\<lparr>state := st\<rparr>)" using c d st by (simp add: detachedOk_def)
    then have dt: "ServerOp_dtor True (op\<lparr>state := st\<rparr>) w1 =
        Inr (w1\<lparr>trace := trace w1 @ releaseBuffers (op\<lparr>state := st\<rparr>)\<rparr>)" for w1
      by (simp add: dtor_locked_released)
    show ?thesis
      using mp st ap pe False dt Cons.IH [OF rest] by (simp add: detachedEvents_def)
  qed
qed

lemma afterProgress_detachedOk:
  assumes "detachedOk op"
  shows "detachedOk (afterProgress P env op)"
proof -
  from assms have c: "claimedOk op" and d: "detached op" by (simp_all add: detachedOk_def)
  from makeProgress_claimed [OF c, of P env] obtain st evs
    where "makeProgress P env op = Inr (st, op\<lparr>state := st\<rparr>, evs)" and "st \<noteq> NOT_STARTED"
    by blast
  then show ?thesis using c d by (simp add: afterProgress_def detachedOk_def)
qed

lemma requestOp_pendingOk [simp]: "pendingOk (requestOp env m h)"
  by (simp add: requestOp_def pendingOk_def ServerOp_empty_def)

lemma processMessage_lists:
  assumes "processMessage P env mh w = Inr w1"
  shows "detachedServerOps w1 = detachedServerOps w"
    and "pendingServerOps w1 = pendingServerOps w @
           (if headerStageId (snd mh) = ULTIMATE_RESPONSE_ID P then []
            else [requestOp env (fst mh) (snd mh)])"
  using assms
  by (auto simp: processMessage_def Let_def split: if_splits option.splits)

lemma processMessages_lists:
  assumes "processMessages P env ms w = Inr w1"
  shows "detachedServerOps w1 = detachedServerOps w \<and>
         pendingServerOps w1 = pendingServerOps w @
           map (\<lambda>mh. requestOp env (fst mh) (snd mh))
             (filter (\<lambda>mh. headerStageId (snd mh) \<noteq> ULTIMATE_RESPONSE_ID P) ms)"
  using assms
proof (induction ms arbitrary: w)
  case Nil
  then show ?case by simp
next
  case (Cons mh ms)
  then obtain w0 where a: "processMessage P env mh w = Inr w0"
    and b: "processMessages P env ms w0 = Inr w1"
    by (auto split: sum.splits)
  from Cons.IH [OF b] processMessage_lists [OF a] show ?case by auto
qed

lemma poll_lists:
  assumes "poll P env received w = Inr w1" and "list_all detachedOk (detachedServerOps w)"
  shows "detachedServerOps w1 =
           filter (\<lambda>op. state op = IN_PROGRESS) (map (afterProgress P env) (detachedServerOps w))"
    and "pendingServerOps w1 = pendingServerOps w @
           map (\<lambda>mh. requestOp env (fst mh) (snd mh))
             (filter (\<lambda>mh. headerStageId (snd mh) \<noteq> ULTIMATE_RESPONSE_ID P) received)"
    and "\<exists>w0. processMessages P env received (w\<lparr>trace := trace w @ [Transport_poll]\<rparr>) = Inr w0 \<and>
           trace w1 = trace w0 @ concat (map (detachedEvents P env) (detachedServerOps w))"
proof -
  from assms(1) obtain w0 kept w2
    where a: "processMessages P env received (w\<lparr>trace := trace w @ [Transport_poll]\<rparr>) = Inr w0"
      and b: "checkDetached P env (detachedServerOps w0) w0 = Inr (kept, w2)"
      and c: "w1 = w2\<lparr>detachedServerOps := kept\<rparr>"
    by (auto simp: poll_def split: sum.splits)
  from processMessages_lists [OF a]
  have d: "detachedServerOps w0 = detachedServerOps w"
    and p: "pendingServerOps w0 = pendingServerOps w @
           map (\<lambda>mh. requestOp env (fst mh) (snd mh))
             (filter (\<lambda>mh. headerStageId (snd mh) \<noteq> ULTIMATE_RESPONSE_ID P) received)"
    by simp_all
  from assms(2) d have "list_all detachedOk (detachedServerOps w0)" by simp
  from checkDetached_ok [OF this, of P env w0] b
  have k: "kept = filter (\<lambda>op. state op = IN_PROGRESS)
              (map (afterProgress P env) (detachedServerOps w0))"
    and w2: "w2 = w0\<lparr>trace := trace w0 @ concat (map (detachedEvents P env) (detachedServerOps w0))\<rparr>"
    by simp_all
  show "detachedServerOps w1 =
           filter (\<lambda>op. state op = IN_PROGRESS) (map (afterProgress P env) (detachedServerOps w))"
    using c k d by simp
  show "pendingServerOps w1 = pendingServerOps w @
           map (\<lambda>mh. requestOp env (fst mh) (snd mh))
             (filter (\<lambda>mh. headerStageId (snd mh) \<noteq> ULTIMATE_RESPONSE_ID P) received)"
    using c w2 p by simp
  show "\<exists>w0. processMessages P env received (w\<lparr>trace := trace w @ [Transport_poll]\<rparr>) = Inr w0 \<and>
           trace w1 = trace w0 @ concat (map (detachedEvents P env) (detachedServerOps w))"
    using a c w2 d by simp
qed

lemma list_all_update:
  "list_all Q xs \<Longrightarrow> Q x \<Longrightarrow> list_all Q (xs[i := x])"
  by (induction xs arbitrary: i) (auto split: nat.splits)

lemma list_all_nth: "list_all Q xs \<Longrightarrow> i < length xs \<Longrightarrow> Q (xs ! i)"
  by (simp add: list_all_length)

lemma heldOk_empty [simp]: "heldOk ServerOp_empty"
  by (simp add: heldOk_def)

lemma receiveServerOp_ok:
  assumes "list_all pendingOk (pendingServerOps w)" and "receiveServerOp P w = (op, w1)"
  shows "heldOk op" and "list_all pendingOk (pendingServerOps w1)"
    and "detachedServerOps w1 = detachedServerOps w"
  using assms
  by (auto simp: receiveServerOp_def ServerOp_move_def Let_def heldOk_def claimedOk_def
      pendingOk_def split: list.splits)

lemma dtor_unlocked_ok:
  assumes "heldOk op" and "ServerOp_dtor False op w = Inr w1"
  shows "pendingServerOps w1 = pendingServerOps w"
    and "list_all detachedOk (detachedServerOps w) \<Longrightarrow> list_all detachedOk (detachedServerOps w1)"
  using assms
  by (auto simp: ServerOp_dtor_def heldOk_def detachedOk_def claimedOk_def ServerOp_empty_def
      split: if_splits)

lemma apiCall_systemOk:
  assumes "systemOk s" and "apiCall P c s = Inr s1"
  shows "systemOk s1"
proof -
  obtain w held where s: "s = (w, held)" by (cases s)
  from assms(1) s have p: "list_all pendingOk (pendingServerOps w)"
    and d: "list_all detachedOk (detachedServerOps w)" and h: "list_all heldOk held"
    by (simp_all add: systemOk_def)
  show ?thesis
  proof (cases c)
    case (Call_poll env received)
    with assms(2) s obtain w1 where pl: "poll P env received w = Inr w1" and s1: "s1 = (w1, held)"
      by (auto split: sum.splits)
    from poll_lists(1,2) [OF pl d] p d h s1 show ?thesis
      by (auto simp: systemOk_def list_all_iff afterProgress_detachedOk)
  next
    case Call_receiveServerOp
    with assms(2) s obtain op w1 where r: "receiveServerOp P w = (op, w1)"
      and s1: "s1 = (w1, held @ [op])"
      by (auto split: prod.splits)
    from receiveServerOp_ok [OF p r] d h s1 show ?thesis by (simp add: systemOk_def)
  next
    case Call_ServerOp
    with assms(2) s p d h show ?thesis by (auto simp: systemOk_def)
  next
    case (Call_makeProgress env i)
    with assms(2) s obtain st op1 evs where i: "i < length held"
      and m: "makeProgress P env (held ! i) = Inr (st, op1, evs)"
      and s1: "s1 = (w\<lparr>trace := trace w @ evs\<rparr>, held[i := op1])"
      by (auto split: if_splits sum.splits)
    from makeProgress_heldOk [OF list_all_nth [OF h i] m] p d h s1 show ?thesis
      by (simp add: systemOk_def list_all_update)
  next
    case (Call_reply env i)
    with assms(2) s obtain op1 evs where i: "i < length held"
      and m: "reply P env (held ! i) = Inr (op1, evs)"
      and s1: "s1 = (w\<lparr>trace := trace w @ evs\<rparr>, held[i := op1])"
      by (auto split: if_splits sum.splits)
    from reply_heldOk [OF list_all_nth [OF h i] m] p d h s1 show ?thesis
      by (simp add: systemOk_def list_all_update)
  next
    case (Call_delegate env i destination)
    with assms(2) s obtain op1 evs where i: "i < length held"
      and m: "delegate P env destination (held ! i) = Inr (op1, evs)"
      and s1: "s1 = (w\<lparr>trace := trace w @ evs\<rparr>, held[i := op1])"
      by (auto split: if_splits sum.splits)
    from delegate_heldOk [OF list_all_nth [OF h i] m] p d h s1 show ?thesis
      by (simp add: systemOk_def list_all_update)
  next
    case (Call_move i j)
    with assms(2) s have j: "j < length held"
      and s1: "s1 = (w, held[i := held ! j, j := ServerOp_empty])"
      by (auto simp: ServerOp_move_def split: if_splits)
    from list_all_nth [OF h j] p d h s1 show ?thesis
      by (simp add: systemOk_def list_all_update)
  next
    case (Call_destroy i)
    with assms(2) s obtain w1 where i: "i < length held"
      and m: "ServerOp_dtor False (held ! i) w = Inr w1"
      and s1: "s1 = (w1, take i held @ drop (Suc i) held)"
      by (auto split: if_splits sum.splits)
    have "list_all heldOk (take i held @ drop (Suc i) held)"
      using h by (auto simp: list_all_iff dest: in_set_takeD in_set_dropD)
    with dtor_unlocked_ok [OF list_all_nth [OF h i] m] p d s1 show ?thesis
      by (simp add: systemOk_def)
  next
    case (Call_RemoteOp q)
    with assms(2) s p d h show ?thesis
      by (auto simp: systemOk_def RemoteOp_ctor_def Let_def split: if_splits)
  next
    case (Call_send env q destination)
    with assms(2) s p d h show ?thesis
      by (auto simp: systemOk_def RemoteOp_send_def Let_def split: sum.splits option.splits)
  next
    case (Call_isReady env q)
    with assms(2) s p d h show ?thesis
      by (auto simp: systemOk_def RemoteOp_isReady_def split: sum.splits option.splits)
  next
    case (Call_destroyRemote q)
    with assms(2) s p d h show ?thesis
      by (auto simp: systemOk_def RemoteOp_dtor_def split: sum.splits option.splits)
  qed
qed

lemma run_systemOk:
  assumes "systemOk s" and "run P cs s = Inr s1"
  shows "systemOk s1"
  using assms
proof (induction cs arbitrary: s)
  case Nil
  then show ?case by simp
next
  case (Cons c cs)
  then obtain s0 where a: "apiCall P c s = Inr s0" and b: "run P cs s0 = Inr s1"
    by (auto split: sum.splits)
  from Cons.IH [OF apiCall_systemOk [OF Cons.prems(1) a] b] show ?case .
qed

lemma start_systemOk [simp]: "systemOk (start tid firstSequence)"
  by (simp add: systemOk_def start_def OpManager_ctor_def)

lemma destroyAll_ok:
  assumes "list_all (\<lambda>op. pendingOk op \<or> detachedOk op) ops"
  shows "destroyAll ops w = Inr (w\<lparr>trace := trace w @ concat (map releaseBuffers ops)\<rparr>)"
  using assms
proof (induction ops arbitrary: w)
  case Nil
  then show ?case by simp
next
  case (Cons op ops)
  then have a: "pendingOk op \<or> detachedOk op"
    and b: "list_all (\<lambda>op. pendingOk op \<or> detachedOk op) ops"
    by simp_all
  show ?case
    using dtor_locked_released [OF a, of True w] Cons.IH [OF b] by simp
qed

lemma OpManager_dtor_ok:
  assumes "systemOk (w, held)"
  shows "OpManager_dtor w =
           Inr (w\<lparr>remoteOps := Map.empty, pendingServerOps := [], detachedServerOps := [],
                  trace := trace w @
                    concat (map releaseBuffers (pendingServerOps w @ detachedServerOps w))\<rparr>)"
proof -
  from assms have p: "list_all (\<lambda>op. pendingOk op \<or> detachedOk op) (pendingServerOps w)"
    and d: "list_all (\<lambda>op. pendingOk op \<or> detachedOk op) (detachedServerOps w)"
    by (auto simp: systemOk_def list_all_iff)
  have 1: "destroyAll (pendingServerOps w) (w\<lparr>remoteOps := Map.empty\<rparr>) =
      Inr (w\<lparr>remoteOps := Map.empty,
             trace := trace w @ concat (map releaseBuffers (pendingServerOps w))\<rparr>)"
    using destroyAll_ok [OF p, of "w\<lparr>remoteOps := Map.empty\<rparr>"] by simp
  have 2: "destroyAll (detachedServerOps w)
        (w\<lparr>remoteOps := Map.empty,
           trace := trace w @ concat (map releaseBuffers (pendingServerOps w)),
           pendingServerOps := []\<rparr>) =
      Inr (w\<lparr>remoteOps := Map.empty, pendingServerOps := [],
             trace := trace w @ concat (map releaseBuffers (pendingServerOps w)) @
                concat (map releaseBuffers (detachedServerOps w))\<rparr>)"
    using destroyAll_ok [OF d, of "w\<lparr>remoteOps := Map.empty,
           trace := trace w @ concat (map releaseBuffers (pendingServerOps w)),
           pendingServerOps := []\<rparr>"] by simp
  show ?thesis
    by (simp add: OpManager_dtor_def 1 2)
qed

lemma apiCall_pending:
  assumes "list_all detachedOk (detachedServerOps (fst s))" and "apiCall P c s = Inr s1"
    and "c \<noteq> Call_receiveServerOp"
  shows "\<exists>new. pendingServerOps (fst s1) = pendingServerOps (fst s) @ new"
proof -
  obtain w held where s: "s = (w, held)" by (cases s)
  show ?thesis
  proof (cases c)
    case (Call_poll env received)
    with assms(2) s obtain w1 where pl: "poll P env received w = Inr w1" and s1: "s1 = (w1, held)"
      by (auto split: sum.splits)
    from poll_lists(2) [OF pl] assms(1) s s1 show ?thesis by simp
  next
    case Call_receiveServerOp
    with assms(3) show ?thesis by simp
  next
    case (Call_destroy i)
    with assms(2) s show ?thesis
      by (auto simp: ServerOp_dtor_def split: if_splits sum.splits)
  qed (use assms(2) s in \<open>auto simp: ServerOp_move_def RemoteOp_ctor_def RemoteOp_send_def
      RemoteOp_isReady_def RemoteOp_dtor_def Let_def split: if_splits sum.splits option.splits\<close>)
qed


lemma empty_fields [simp]:
  "request ServerOp_empty = None" "response ServerOp_empty = None"
  "transport ServerOp_empty = None" "state ServerOp_empty = NOT_STARTED"
  "\<not> detached ServerOp_empty" "\<not> delegated ServerOp_empty"
  by (simp_all add: ServerOp_empty_def)



lemma dtor_locked_frame:
  assumes "ServerOp_dtor True op w = Inr w'"
  shows "w' = w\<lparr>trace := trace w @ releaseBuffers op\<rparr>"
  using assms by (auto simp: ServerOp_dtor_def split: if_splits)

lemma checkDetached_frame:
  assumes "checkDetached P env ds w = Inr (kept, w')"
  shows "\<exists>evs. w' = w\<lparr>trace := trace w @ evs\<rparr>"
  using assms
proof (induction ds arbitrary: w kept)
  case Nil
  then have "w' = w\<lparr>trace := trace w @ []\<rparr>" by simp
  then show ?case by blast
next
  case (Cons op ds)
  from Cons.prems obtain st op1 evs where mp: "makeProgress P env op = Inr (st, op1, evs)"
    by (auto split: sum.splits)
  show ?case
  proof (cases "st = IN_PROGRESS")
    case True
    with Cons.prems mp obtain kept1
      where "checkDetached P env ds (w\<lparr>trace := trace w @ evs\<rparr>) = Inr (kept1, w')"
      by (auto simp: Let_def split: sum.splits)
    from Cons.IH [OF this] obtain evs1 where "w' = w\<lparr>trace := trace w @ evs @ evs1\<rparr>"
      by auto
    then show ?thesis by blast
  next
    case False
    with Cons.prems mp obtain w2
      where d: "ServerOp_dtor True op1 (w\<lparr>trace := trace w @ evs\<rparr>) = Inr w2"
        and r: "checkDetached P env ds w2 = Inr (kept, w')"
      by (auto simp: Let_def split: sum.splits if_splits)
    from dtor_locked_frame [OF d] Cons.IH [OF r]
    obtain evs1 where "w' = w\<lparr>trace := trace w @ evs @ releaseBuffers op1 @ evs1\<rparr>"
      by auto
    then show ?thesis by blast
  qed
qed

lemma processMessage_rank:
  assumes "processMessage P env mh w = Inr w'" and "remoteHeap w p = Some r"
  shows "\<exists>r'. remoteHeap w' p = Some r' \<and> remoteRank (remoteState r) \<le> remoteRank (remoteState r')"
proof (cases "remoteState r")
  case Remote_NOT_STARTED
  with assms show ?thesis
    by (auto simp: processMessage_def Let_def split: if_splits option.splits)
next
  case Remote_IN_PROGRESS
  with assms show ?thesis
    by (auto simp: processMessage_def Let_def split: if_splits option.splits)
next
  case Remote_COMPLETED
  with assms show ?thesis
    by (auto simp: processMessage_def Let_def split: if_splits option.splits)
next
  case Remote_FAILED
  with assms show ?thesis
    by (auto simp: processMessage_def Let_def split: if_splits option.splits)
qed

lemma processMessages_rank:
  assumes "processMessages P env ms w = Inr w'" and "remoteHeap w p = Some r"
  shows "\<exists>r'. remoteHeap w' p = Some r' \<and> remoteRank (remoteState r) \<le> remoteRank (remoteState r')"
  using assms
proof (induction ms arbitrary: w r)
  case Nil
  then show ?case by simp
next
  case (Cons mh ms)
  then obtain v where a: "processMessage P env mh w = Inr v"
    and b: "processMessages P env ms v = Inr w'"
    by (auto split: sum.splits)
  from processMessage_rank [OF a Cons.prems(2)] obtain r1
    where r1: "remoteHeap v p = Some r1"
      and le1: "remoteRank (remoteState r) \<le> remoteRank (remoteState r1)"
    by blast
  from Cons.IH [OF b r1] obtain r'
    where "remoteHeap w' p = Some r'"
      and "remoteRank (remoteState r1) \<le> remoteRank (remoteState r')"
    by blast
  with le1 show ?case by (meson le_trans)
qed

lemma poll_rank:
  assumes "poll P env received w = Inr w'" and "remoteHeap w p = Some r"
  shows "\<exists>r'. remoteHeap w' p = Some r' \<and> remoteRank (remoteState r) \<le> remoteRank (remoteState r')"
proof -
  from assms(1) obtain v kept v'
    where a: "processMessages P env received (w\<lparr>trace := trace w @ [Transport_poll]\<rparr>) = Inr v"
      and b: "checkDetached P env (detachedServerOps v) v = Inr (kept, v')"
      and c: "w' = v'\<lparr>detachedServerOps := kept\<rparr>"
    by (auto simp: poll_def split: sum.splits)
  from assms(2) have "remoteHeap (w\<lparr>trace := trace w @ [Transport_poll]\<rparr>) p = Some r" by simp
  from processMessages_rank [OF a this] obtain r'
    where "remoteHeap v p = Some r'"
      and "remoteRank (remoteState r) \<le> remoteRank (remoteState r')"
    by blast
  moreover from checkDetached_frame [OF b] c have "remoteHeap w' = remoteHeap v" by auto
  ultimately show ?thesis by simp
qed

lemma send_rank:
  assumes "sendAllowed (Call_send env q destination) w"
    and "RemoteOp_send P env q destination w = Inr w'" and "remoteHeap w p = Some r"
  shows "\<exists>r'. remoteHeap w' p = Some r' \<and> remoteRank (remoteState r) \<le> remoteRank (remoteState r')"
  using assms
  by (cases "p = q") (auto simp: RemoteOp_send_def Let_def split: option.splits)

lemma isReady_rank:
  assumes "RemoteOp_isReady env q w = Inr (b, w')" and "remoteHeap w p = Some r"
  shows "\<exists>r'. remoteHeap w' p = Some r' \<and> remoteRank (remoteState r) \<le> remoteRank (remoteState r')"
  using assms
  by (cases "p = q"; cases "remoteState r")
    (auto simp: RemoteOp_isReady_def isReady_def split: option.splits)

lemma apiCall_rank:
  assumes "remoteCall c" and "sendAllowed c (fst s)" and "apiCall P c s = Inr s'"
    and "remoteHeap (fst s) p = Some r"
  shows "\<exists>r'. remoteHeap (fst s') p = Some r' \<and>
              remoteRank (remoteState r) \<le> remoteRank (remoteState r')"
proof -
  obtain w held where s: "s = (w, held)" by (cases s)
  show ?thesis
  proof (cases c)
    case (Call_poll env received)
    with assms(3) s obtain w' where "poll P env received w = Inr w'" and "s' = (w', held)"
      by (auto split: sum.splits)
    with poll_rank [of P env received w w' p r] assms(4) s show ?thesis by simp
  next
    case (Call_send env q destination)
    with assms(3) s obtain w' where "RemoteOp_send P env q destination w = Inr w'"
      and "s' = (w', held)"
      by (auto split: sum.splits)
    with send_rank [of env q destination w P w' p r] assms(2,4) s Call_send show ?thesis by simp
  next
    case (Call_isReady env q)
    with assms(3) s obtain b w' where "RemoteOp_isReady env q w = Inr (b, w')"
      and "s' = (w', held)"
      by (auto split: sum.splits)
    with isReady_rank [of env q w b w' p r] assms(4) s show ?thesis by simp
  qed (use assms(1) in simp_all)
qed

lemma run_rank:
  assumes "list_all remoteCall calls" and "sendsAllowed P calls s" and "run P calls s = Inr s'"
    and "remoteHeap (fst s) p = Some r"
  shows "\<exists>r'. remoteHeap (fst s') p = Some r' \<and>
              remoteRank (remoteState r) \<le> remoteRank (remoteState r')"
  using assms
proof (induction calls arbitrary: s r)
  case Nil
  then show ?case by simp
next
  case (Cons c calls)
  from Cons.prems(3) obtain s1 where a: "apiCall P c s = Inr s1" and b: "run P calls s1 = Inr s'"
    by (auto split: sum.splits)
  from Cons.prems(1) have rc: "remoteCall c" and rcs: "list_all remoteCall calls" by simp_all
  from Cons.prems(2) a have sa: "sendAllowed c (fst s)" and sas: "sendsAllowed P calls s1"
    by simp_all
  from apiCall_rank [OF rc sa a Cons.prems(4)] obtain r1
    where r1: "remoteHeap (fst s1) p = Some r1"
      and le1: "remoteRank (remoteState r) \<le> remoteRank (remoteState r1)"
    by blast
  from Cons.IH [OF rcs sas b r1] obtain r'
    where "remoteHeap (fst s') p = Some r'"
      and "remoteRank (remoteState r1) \<le> remoteRank (remoteState r')"
    by blast
  with le1 show ?case by (meson le_trans)
qed


lemma receiveServerOp_empty:
  "pendingServerOps w = [] \<Longrightarrow> receiveServerOp P w = (ServerOp_empty, w)"
  by (simp add: receiveServerOp_def)

lemma receiveServerOp_front:
  "pendingServerOps w = front # rest \<Longrightarrow>
     receiveServerOp P w =
       (front\<lparr>response := Some (allocated w), transport := Some (), state := IN_PROGRESS\<rparr>,
        w\<lparr>pendingServerOps := rest, allocated := Suc (allocated w),
          trace := trace w @
            [Transport_alloc (allocated w), OutMessage_reserve (allocated w) (sizeofHeader P)]\<rparr>)"
  by (simp add: receiveServerOp_def ServerOp_move_def Let_def)

lemma map_upt_Suc_shift: "map f [0..<Suc n] = f 0 # map (\<lambda>i. f (Suc i)) [0..<n]"
  by (simp add: map_upt_Suc del: upt_Suc)

lemma receiveServerOps_Suc:
  "fst (receiveServerOps P (Suc n) w) =
     fst (receiveServerOp P w) # fst (receiveServerOps P n (snd (receiveServerOp P w)))"
  by (simp split: prod.splits)

lemma receiveServerOps_order:
  "fst (receiveServerOps P n w) =
     map (\<lambda>i. if i < length (pendingServerOps w)
               then (pendingServerOps w ! i)
                      \<lparr>response := Some (allocated w + i), transport := Some (),
                       state := IN_PROGRESS\<rparr>
               else ServerOp_empty) [0..<n]"
proof (induction n arbitrary: w)
  case 0
  show ?case by simp
next
  case (Suc n)
  show ?case
  proof (cases "pendingServerOps w")
    case Nil
    then show ?thesis
      using Suc.IH [of w]
      by (simp add: receiveServerOps_Suc receiveServerOp_empty map_upt_Suc_shift
          del: upt_Suc receiveServerOps.simps)
  next
    case (Cons front rest)
    then show ?thesis
      using Suc.IH [of "w\<lparr>pendingServerOps := rest, allocated := Suc (allocated w),
          trace := trace w @
            [Transport_alloc (allocated w), OutMessage_reserve (allocated w) (sizeofHeader P)]\<rparr>"]
      by (simp add: receiveServerOps_Suc receiveServerOp_front map_upt_Suc_shift
          del: upt_Suc receiveServerOps.simps)
  qed
qed

lemma processMessages_append:
  "processMessages P env (before @ mh # after) w =
     (case processMessages P env before w of
        Inl e \<Rightarrow> Inl e
      | Inr v \<Rightarrow>
          (case processMessage P env mh v of
             Inl e \<Rightarrow> Inl e
           | Inr v' \<Rightarrow> processMessages P env after v'))"
  by (induction before arbitrary: w) (auto split: sum.splits)

lemma poll_pending:
  assumes "poll P env received w = Inr w'"
  shows "pendingServerOps w' = pendingServerOps w @
           map (\<lambda>mh. requestOp env (fst mh) (snd mh))
             (filter (\<lambda>mh. headerStageId (snd mh) \<noteq> ULTIMATE_RESPONSE_ID P) received)"
proof -
  from assms obtain v kept v'
    where a: "processMessages P env received (w\<lparr>trace := trace w @ [Transport_poll]\<rparr>) = Inr v"
      and b: "checkDetached P env (detachedServerOps v) v = Inr (kept, v')"
      and c: "w' = v'\<lparr>detachedServerOps := kept\<rparr>"
    by (auto simp: poll_def split: sum.splits)
  from checkDetached_frame [OF b] c have "pendingServerOps w' = pendingServerOps v" by auto
  with processMessages_lists [OF a] show ?thesis by simp
qed

lemma delegate_fields:
  assumes "request op = Some req" and "response op = Some r" and "transport op = Some t"
  shows "delegate P env destination op =
        Inr (op\<lparr>delegated := True\<rparr>,
             [OutMessage_prepend r
                \<lparr>headerOpId = opId op, headerStageId = stageId op + 1,
                 headerReplyAddress = addressToWireFormat env (replyAddress op)\<rparr>,
              OutMessage_send r destination])"
  using assms by (simp add: delegate_def)

lemma makeProgress_after_delegate:
  assumes "request op = Some req" and "response op = Some r" and "state op = IN_PROGRESS"
    and "\<not> dropped env req"
  shows "makeProgress P env (op\<lparr>delegated := True\<rparr>) =
          (if getStatus env r = Status_COMPLETED
           then Inr (COMPLETED, op\<lparr>delegated := True, state := COMPLETED\<rparr>,
                     if stageId op \<noteq> INITIAL_REQUEST_ID P then [InMessage_acknowledge req]
                     else [])
           else if getStatus env r = Status_FAILED
           then Inr (FAILED, op\<lparr>delegated := True, state := FAILED\<rparr>, [OutMessage_cancel r])
           else Inr (IN_PROGRESS, op\<lparr>delegated := True\<rparr>, []))"
    and "getStatus env r = Status_SENT \<Longrightarrow>
          makeProgress P env (op\<lparr>delegated := False\<rparr>) =
            Inr (COMPLETED, op\<lparr>delegated := False, state := COMPLETED\<rparr>,
                 if stageId op \<noteq> INITIAL_REQUEST_ID P then [InMessage_acknowledge req]
                 else [])"
  using assms by (auto simp: makeProgress_def returnState_def outState_def)

section \<open>Concrete runs\<close>

lemmas fixture_defs = quiet_def worldWith_def receivedOp_def requestWorld_def claimedWorld_def
  abandonedWorld_def claimScript_def abandonScript_def callerScript_def protocol0_def envWith_def
  claimedOp_def header0_def start_def OpManager_ctor_def requestOp_def ServerOp_empty_def
  OpId_default_def

lemmas code_defs = poll_def processMessage_def receiveServerOp_def ServerOp_move_def
  reply_def delegate_def ServerOp_dtor_def releaseBuffers_def makeProgress_def returnState_def
  outState_def RemoteOp_ctor_def RemoteOp_send_def RemoteOp_isReady_def isReady_def Let_def

lemma run_request:
  "run protocol0 [Call_poll quiet [(7, header0 1)]] (start 1 1) = Inr (requestWorld, [])"
  by (simp add: fixture_defs code_defs)

lemma run_claim: "run protocol0 claimScript (start 1 1) = Inr (claimedWorld, [receivedOp])"
  by (simp add: fixture_defs code_defs)




lemma run_empty_op:
  "run protocol0 [Call_ServerOp] (start 1 1) = Inr (OpManager_ctor 1 1, [ServerOp_empty])"
  by (simp add: start_def)

lemma poll_queue:
  "poll protocol0 quiet [(7, header0 0), (3, header0 (- 1)), (9, header0 1)] (OpManager_ctor 1 1)
     = Inr queueWorld"
  by (simp add: queueWorld_def fixture_defs code_defs)

section \<open>ServerOp::makeProgress from IN_PROGRESS\<close>

text \<open>
  C1. For a \<open>ServerOp\<close> in state \<open>IN_PROGRESS\<close> (whose request buffer is then not null, as the
  assertion of the code says), \<open>makeProgress\<close> checks in this order: the request buffer
  is dropped, and the state becomes \<open>DROPPED\<close> with no collaborator call; else the status
  of the response buffer is \<open>COMPLETED\<close>, or \<open>SENT\<close> with the op not delegated, and the state
  becomes \<open>COMPLETED\<close>, the request buffer being acknowledged exactly when the stage is not
  the initial one; else the status is \<open>FAILED\<close>, and the state becomes \<open>FAILED\<close> with the
  response buffer cancelled; else nothing changes. The returned state is the state of
  the op after the call.
\<close>

theorem makeProgress_IN_PROGRESS:
  assumes "state op = IN_PROGRESS" and "request op = Some req"
  shows "(dropped env req \<longrightarrow>
            makeProgress P env op = Inr (DROPPED, op\<lparr>state := DROPPED\<rparr>, []))
       \<and> (\<not> dropped env req \<and>
            (outState env op = Status_COMPLETED \<or>
             (outState env op = Status_SENT \<and> \<not> delegated op)) \<longrightarrow>
            makeProgress P env op =
              Inr (COMPLETED, op\<lparr>state := COMPLETED\<rparr>,
                   if stageId op \<noteq> INITIAL_REQUEST_ID P then [InMessage_acknowledge req] else []))
       \<and> (\<not> dropped env req \<and>
            \<not> (outState env op = Status_COMPLETED \<or>
               (outState env op = Status_SENT \<and> \<not> delegated op)) \<and>
            outState env op = Status_FAILED \<longrightarrow>
            (\<exists>r. response op = Some r \<and>
                 makeProgress P env op =
                   Inr (FAILED, op\<lparr>state := FAILED\<rparr>, [OutMessage_cancel r])))
       \<and> (\<not> dropped env req \<and>
            \<not> (outState env op = Status_COMPLETED \<or>
               (outState env op = Status_SENT \<and> \<not> delegated op)) \<and>
            outState env op \<noteq> Status_FAILED \<longrightarrow>
            makeProgress P env op = Inr (IN_PROGRESS, op, []))
       \<and> (\<exists>op1 evs. makeProgress P env op = Inr (state op1, op1, evs))"
  using assms
  by (cases "response op") (auto simp: makeProgress_def returnState_def outState_def)

theorem makeProgress_IN_PROGRESS_witness:
  "makeProgress protocol0 (envWith Status_SENT True) (claimedOp 0)
     = Inr (DROPPED, (claimedOp 0)\<lparr>state := DROPPED\<rparr>, [])
   \<and> makeProgress protocol0 (envWith Status_SENT False) (claimedOp 0)
     = Inr (COMPLETED, (claimedOp 0)\<lparr>state := COMPLETED\<rparr>, [])
   \<and> makeProgress protocol0 (envWith Status_COMPLETED False) (claimedOp 1)
     = Inr (COMPLETED, (claimedOp 1)\<lparr>state := COMPLETED\<rparr>, [InMessage_acknowledge 7])
   \<and> makeProgress protocol0 (envWith Status_FAILED False) (claimedOp 1)
     = Inr (FAILED, (claimedOp 1)\<lparr>state := FAILED\<rparr>, [OutMessage_cancel 8])
   \<and> makeProgress protocol0 (envWith Status_NOT_STARTED False) (claimedOp 1)
     = Inr (IN_PROGRESS, claimedOp 1, [])"
  using makeProgress_IN_PROGRESS [of "claimedOp 0" 7 "envWith Status_SENT True" protocol0]
    makeProgress_IN_PROGRESS [of "claimedOp 0" 7 "envWith Status_SENT False" protocol0]
    makeProgress_IN_PROGRESS [of "claimedOp 1" 7 "envWith Status_COMPLETED False" protocol0]
    makeProgress_IN_PROGRESS [of "claimedOp 1" 7 "envWith Status_FAILED False" protocol0]
    makeProgress_IN_PROGRESS [of "claimedOp 1" 7 "envWith Status_NOT_STARTED False" protocol0]
  by (simp add: claimedOp_def envWith_def protocol0_def outState_def)

section \<open>A detached ServerOp that fails\<close>

text \<open>
  C2 says that a detached \<open>ServerOp\<close> which reaches \<open>FAILED\<close> has \<open>fail()\<close> invoked on its
  request buffer exactly once, in particular when the loop of \<open>poll\<close> drives it to
  \<open>FAILED\<close>. The code does not do this. An application receives a request, replies and
  drops the op while it is \<open>IN_PROGRESS\<close>; the response then fails. The next \<open>poll\<close> calls
  \<open>makeProgress\<close>, which sets the state to \<open>FAILED\<close> and cancels the response, and \<open>poll\<close>
  erases the op at once because the returned state is not \<open>IN_PROGRESS\<close>: both buffers are
  released and \<open>fail()\<close> is never called on the request buffer (first two equations). The
  branch of \<open>makeProgress\<close> that calls \<open>fail()\<close> runs only for an op that was \<open>FAILED\<close>
  already when it was dropped (third equation).
\<close>

theorem detached_failure_not_reported:
  "traceOf (run protocol0 (abandonScript @ [Call_poll (envWith Status_FAILED False) []])
      (start 1 1))
     = Some [Transport_poll, InMessage_strip 7 32, Transport_alloc 0, OutMessage_reserve 0 32,
             OutMessage_prepend 0 (header0 (- 1)), OutMessage_send 0 2,
             Transport_poll, OutMessage_cancel 0, InMessage_release 7, OutMessage_release 0]
   \<and> detachedOf (run protocol0 (abandonScript @ [Call_poll (envWith Status_FAILED False) []])
      (start 1 1)) = Some []
   \<and> traceOf (run protocol0
        (claimScript @
          [Call_reply quiet 0, Call_makeProgress (envWith Status_FAILED False) 0, Call_destroy 0,
           Call_poll (envWith Status_FAILED False) []])
        (start 1 1))
     = Some [Transport_poll, InMessage_strip 7 32, Transport_alloc 0, OutMessage_reserve 0 32,
             OutMessage_prepend 0 (header0 (- 1)), OutMessage_send 0 2, OutMessage_cancel 0,
             Transport_poll, InMessage_fail 7, InMessage_release 7, OutMessage_release 0]"
  by (simp add: traceOf_def detachedOf_def fixture_defs code_defs)

section \<open>Destruction of a ServerOp\<close>



section \<open>The messages drained by poll\<close>

text \<open>
  C4. \<open>poll\<close> pumps the transport, handles the drained messages one after the other, each
  in the state the ones before it left, and then walks the detached list, which changes
  neither a \<open>RemoteOp\<close>, nor the registrations, nor the pending queue. For a drained
  message whose stage is the ultimate-response marker: if its operation id is registered,
  and the registered \<open>RemoteOp\<close> is \<open>r\<close>, the message becomes the response of \<open>r\<close>, the
  request buffer of \<open>r\<close> is cancelled and the state of \<open>r\<close> is \<open>COMPLETED\<close>; if the id is
  not registered, the message is released, and neither a \<open>RemoteOp\<close> nor the pending queue
  changes. A drained message of any other stage is put at the back of the pending queue,
  in a fresh \<open>ServerOp\<close> that carries the message, its operation id, its stage and the
  decoded reply address; so a \<open>poll\<close> that returns has appended exactly the requests among
  the drained messages, in their order.
\<close>

theorem processMessage_routes:
  "(headerStageId h = ULTIMATE_RESPONSE_ID P \<and> remoteOps w (headerOpId h) = Some p \<and>
      remoteHeap w p = Some r \<longrightarrow>
      processMessage P env (m, h) w =
        Inr (w\<lparr>remoteHeap := (remoteHeap w)(p \<mapsto>
                  r\<lparr>remoteResponse := Some m, remoteState := Remote_COMPLETED\<rparr>),
               trace := trace w @
                  [InMessage_strip m (sizeofHeader P), OutMessage_cancel (remoteRequest r)]\<rparr>))
   \<and> (headerStageId h = ULTIMATE_RESPONSE_ID P \<and> remoteOps w (headerOpId h) = None \<longrightarrow>
      processMessage P env (m, h) w =
        Inr (w\<lparr>trace := trace w @ [InMessage_strip m (sizeofHeader P), InMessage_release m]\<rparr>))
   \<and> (headerStageId h \<noteq> ULTIMATE_RESPONSE_ID P \<longrightarrow>
      processMessage P env (m, h) w =
        Inr (w\<lparr>pendingServerOps := pendingServerOps w @
                  [\<lparr>request = Some m, response = None, transport = None, state = NOT_STARTED,
                    detached = False, opId = headerOpId h, stageId = headerStageId h,
                    replyAddress = getAddress env (headerReplyAddress h), delegated = False\<rparr>],
               trace := trace w @ [InMessage_strip m (sizeofHeader P)]\<rparr>))
   \<and> processMessages P env (before @ (m, h) # after) w =
       (case processMessages P env before w of
          Inl e \<Rightarrow> Inl e
        | Inr v \<Rightarrow>
            (case processMessage P env (m, h) v of
               Inl e \<Rightarrow> Inl e
             | Inr v' \<Rightarrow> processMessages P env after v'))
   \<and> processMessages P env [] w = Inr w
   \<and> poll P env (before @ (m, h) # after) w =
       (case processMessages P env before (w\<lparr>trace := trace w @ [Transport_poll]\<rparr>) of
          Inl e \<Rightarrow> Inl e
        | Inr v \<Rightarrow>
            (case processMessage P env (m, h) v of
               Inl e \<Rightarrow> Inl e
             | Inr v' \<Rightarrow>
                 (case processMessages P env after v' of
                    Inl e \<Rightarrow> Inl e
                  | Inr u \<Rightarrow>
                      (case checkDetached P env (detachedServerOps u) u of
                         Inl e \<Rightarrow> Inl e
                       | Inr (kept, u') \<Rightarrow> Inr (u'\<lparr>detachedServerOps := kept\<rparr>)))))
   \<and> poll P env [] w =
       (case checkDetached P env (detachedServerOps w) (w\<lparr>trace := trace w @ [Transport_poll]\<rparr>) of
          Inl e \<Rightarrow> Inl e
        | Inr (kept, u') \<Rightarrow> Inr (u'\<lparr>detachedServerOps := kept\<rparr>))
   \<and> (poll P env received w = Inr w' \<longrightarrow>
        (\<exists>u. processMessages P env received (w\<lparr>trace := trace w @ [Transport_poll]\<rparr>) = Inr u \<and>
             remoteHeap w' = remoteHeap u \<and> remoteOps w' = remoteOps u \<and>
             pendingServerOps w' = pendingServerOps u) \<and>
        pendingServerOps w' = pendingServerOps w @
          map (\<lambda>mh. \<lparr>request = Some (fst mh), response = None, transport = None,
                      state = NOT_STARTED, detached = False, opId = headerOpId (snd mh),
                      stageId = headerStageId (snd mh),
                      replyAddress = getAddress env (headerReplyAddress (snd mh)),
                      delegated = False\<rparr>)
            (filter (\<lambda>mh. headerStageId (snd mh) \<noteq> ULTIMATE_RESPONSE_ID P) received))"
proof -
  have 1: "headerStageId h = ULTIMATE_RESPONSE_ID P \<and> remoteOps w (headerOpId h) = Some p \<and>
      remoteHeap w p = Some r \<longrightarrow>
      processMessage P env (m, h) w =
        Inr (w\<lparr>remoteHeap := (remoteHeap w)(p \<mapsto>
                  r\<lparr>remoteResponse := Some m, remoteState := Remote_COMPLETED\<rparr>),
               trace := trace w @
                  [InMessage_strip m (sizeofHeader P), OutMessage_cancel (remoteRequest r)]\<rparr>)"
    by (simp add: processMessage_def Let_def)
  have 2: "headerStageId h = ULTIMATE_RESPONSE_ID P \<and> remoteOps w (headerOpId h) = None \<longrightarrow>
      processMessage P env (m, h) w =
        Inr (w\<lparr>trace := trace w @ [InMessage_strip m (sizeofHeader P), InMessage_release m]\<rparr>)"
    by (simp add: processMessage_def Let_def)
  have 3: "headerStageId h \<noteq> ULTIMATE_RESPONSE_ID P \<longrightarrow>
      processMessage P env (m, h) w =
        Inr (w\<lparr>pendingServerOps := pendingServerOps w @
                  [\<lparr>request = Some m, response = None, transport = None, state = NOT_STARTED,
                    detached = False, opId = headerOpId h, stageId = headerStageId h,
                    replyAddress = getAddress env (headerReplyAddress h), delegated = False\<rparr>],
               trace := trace w @ [InMessage_strip m (sizeofHeader P)]\<rparr>)"
    by (simp add: processMessage_def Let_def requestOp_def ServerOp_empty_def)
  note 4 = processMessages_append [of P env before "(m, h)" after w]
  have 5: "processMessages P env [] w = Inr w"
    by simp
  have 6: "poll P env (before @ (m, h) # after) w =
       (case processMessages P env before (w\<lparr>trace := trace w @ [Transport_poll]\<rparr>) of
          Inl e \<Rightarrow> Inl e
        | Inr v \<Rightarrow>
            (case processMessage P env (m, h) v of
               Inl e \<Rightarrow> Inl e
             | Inr v' \<Rightarrow>
                 (case processMessages P env after v' of
                    Inl e \<Rightarrow> Inl e
                  | Inr u \<Rightarrow>
                      (case checkDetached P env (detachedServerOps u) u of
                         Inl e \<Rightarrow> Inl e
                       | Inr (kept, u') \<Rightarrow> Inr (u'\<lparr>detachedServerOps := kept\<rparr>)))))"
    unfolding poll_def processMessages_append
    by (simp split: sum.splits)
  have 7: "poll P env [] w =
       (case checkDetached P env (detachedServerOps w) (w\<lparr>trace := trace w @ [Transport_poll]\<rparr>) of
          Inl e \<Rightarrow> Inl e
        | Inr (kept, u') \<Rightarrow> Inr (u'\<lparr>detachedServerOps := kept\<rparr>))"
    by (simp add: poll_def)
  have 8: "poll P env received w = Inr w' \<longrightarrow>
        (\<exists>u. processMessages P env received (w\<lparr>trace := trace w @ [Transport_poll]\<rparr>) = Inr u \<and>
             remoteHeap w' = remoteHeap u \<and> remoteOps w' = remoteOps u \<and>
             pendingServerOps w' = pendingServerOps u) \<and>
        pendingServerOps w' = pendingServerOps w @
          map (\<lambda>mh. \<lparr>request = Some (fst mh), response = None, transport = None,
                      state = NOT_STARTED, detached = False, opId = headerOpId (snd mh),
                      stageId = headerStageId (snd mh),
                      replyAddress = getAddress env (headerReplyAddress (snd mh)),
                      delegated = False\<rparr>)
            (filter (\<lambda>mh. headerStageId (snd mh) \<noteq> ULTIMATE_RESPONSE_ID P) received)"
  proof
    assume a: "poll P env received w = Inr w'"
    then obtain u kept u'
      where b: "processMessages P env received (w\<lparr>trace := trace w @ [Transport_poll]\<rparr>) = Inr u"
        and c: "checkDetached P env (detachedServerOps u) u = Inr (kept, u')"
        and d: "w' = u'\<lparr>detachedServerOps := kept\<rparr>"
      by (auto simp: poll_def split: sum.splits)
    from checkDetached_frame [OF c] d
    have e: "remoteHeap w' = remoteHeap u" "remoteOps w' = remoteOps u"
      "pendingServerOps w' = pendingServerOps u"
      by auto
    have f: "pendingServerOps w' = pendingServerOps w @
          map (\<lambda>mh. \<lparr>request = Some (fst mh), response = None, transport = None,
                      state = NOT_STARTED, detached = False, opId = headerOpId (snd mh),
                      stageId = headerStageId (snd mh),
                      replyAddress = getAddress env (headerReplyAddress (snd mh)),
                      delegated = False\<rparr>)
            (filter (\<lambda>mh. headerStageId (snd mh) \<noteq> ULTIMATE_RESPONSE_ID P) received)"
      using poll_pending [OF a] by (simp add: requestOp_def ServerOp_empty_def)
    from b e f
    show "(\<exists>u. processMessages P env received (w\<lparr>trace := trace w @ [Transport_poll]\<rparr>) = Inr u \<and>
             remoteHeap w' = remoteHeap u \<and> remoteOps w' = remoteOps u \<and>
             pendingServerOps w' = pendingServerOps u) \<and>
        pendingServerOps w' = pendingServerOps w @
          map (\<lambda>mh. \<lparr>request = Some (fst mh), response = None, transport = None,
                      state = NOT_STARTED, detached = False, opId = headerOpId (snd mh),
                      stageId = headerStageId (snd mh),
                      replyAddress = getAddress env (headerReplyAddress (snd mh)),
                      delegated = False\<rparr>)
            (filter (\<lambda>mh. headerStageId (snd mh) \<noteq> ULTIMATE_RESPONSE_ID P) received)"
      by blast
  qed
  show ?thesis by (intro conjI 1 2 3 4 5 6 7 8)
qed

theorem processMessage_routes_witness:
  "processMessage protocol0 quiet (3, header0 (- 1)) callerWorld
     = Inr (callerWorld\<lparr>remoteHeap := [5 \<mapsto> (remoteOp0 Remote_COMPLETED)\<lparr>remoteResponse := Some 3\<rparr>],
              trace := [InMessage_strip 3 32, OutMessage_cancel 4]\<rparr>)
   \<and> processMessage protocol0 quiet (3, header0 (- 1)) claimedWorld
     = Inr (claimedWorld\<lparr>trace := trace claimedWorld @
              [InMessage_strip 3 32, InMessage_release 3]\<rparr>)
   \<and> processMessage protocol0 quiet (7, header0 1) claimedWorld
     = Inr (claimedWorld\<lparr>pendingServerOps := [requestOp quiet 7 (header0 1)],
              trace := trace claimedWorld @ [InMessage_strip 7 32]\<rparr>)
   \<and> poll protocol0 quiet [(3, header0 (- 1))] callerWorld
     = Inr (callerWorld\<lparr>remoteHeap := [5 \<mapsto> (remoteOp0 Remote_COMPLETED)\<lparr>remoteResponse := Some 3\<rparr>],
              trace := [Transport_poll, InMessage_strip 3 32, OutMessage_cancel 4]\<rparr>)
   \<and> poll protocol0 quiet [(7, header0 0), (3, header0 (- 1)), (9, header0 1)]
       (OpManager_ctor 1 1)
     = Inr ((OpManager_ctor 1 1)
         \<lparr>pendingServerOps := [requestOp quiet 7 (header0 0), requestOp quiet 9 (header0 1)],
          trace := [Transport_poll, InMessage_strip 7 32, InMessage_strip 3 32,
                    InMessage_release 3, InMessage_strip 9 32]\<rparr>)
   \<and> poll protocol0 quiet [] (OpManager_ctor 1 1)
     = Inr ((OpManager_ctor 1 1)\<lparr>trace := [Transport_poll]\<rparr>)"
proof -
  have f: "headerStageId (header0 (- 1)) = ULTIMATE_RESPONSE_ID protocol0"
    "headerStageId (header0 1) \<noteq> ULTIMATE_RESPONSE_ID protocol0"
    "remoteOps callerWorld (headerOpId (header0 (- 1))) = Some 5"
    "remoteHeap callerWorld 5 = Some (remoteOp0 Remote_IN_PROGRESS)"
    "remoteOps claimedWorld (headerOpId (header0 (- 1))) = None"
    by (simp_all add: header0_def protocol0_def callerWorld_def claimedWorld_def worldWith_def)
  from f processMessage_routes [of "header0 (- 1)" protocol0 callerWorld 5
      "remoteOp0 Remote_IN_PROGRESS" quiet 3, THEN conjunct1]
  have 1: "processMessage protocol0 quiet (3, header0 (- 1)) callerWorld
     = Inr (callerWorld\<lparr>remoteHeap := [5 \<mapsto> (remoteOp0 Remote_COMPLETED)\<lparr>remoteResponse := Some 3\<rparr>],
              trace := [InMessage_strip 3 32, OutMessage_cancel 4]\<rparr>)"
    by (simp add: callerWorld_def remoteOp0_def protocol0_def)
  from f processMessage_routes [of "header0 (- 1)" protocol0 claimedWorld _ _ quiet 3,
      THEN conjunct2, THEN conjunct1]
  have 2: "processMessage protocol0 quiet (3, header0 (- 1)) claimedWorld
     = Inr (claimedWorld\<lparr>trace := trace claimedWorld @
              [InMessage_strip 3 32, InMessage_release 3]\<rparr>)"
    by (simp add: protocol0_def)
  from f processMessage_routes [of "header0 1" protocol0 claimedWorld _ _ quiet 7,
      THEN conjunct2, THEN conjunct2, THEN conjunct1]
  have 3: "processMessage protocol0 quiet (7, header0 1) claimedWorld
     = Inr (claimedWorld\<lparr>pendingServerOps := [requestOp quiet 7 (header0 1)],
              trace := trace claimedWorld @ [InMessage_strip 7 32]\<rparr>)"
    by (simp add: protocol0_def requestOp_def ServerOp_empty_def claimedWorld_def worldWith_def
        header0_def)
  from processMessage_routes [where P = protocol0 and env = quiet and before = "[]"
      and m = 3 and h = "header0 (- 1)" and after = "[]" and w = callerWorld,
      THEN conjunct2, THEN conjunct2, THEN conjunct2, THEN conjunct2, THEN conjunct2,
      THEN conjunct1]
  have 4: "poll protocol0 quiet [(3, header0 (- 1))] callerWorld
     = Inr (callerWorld\<lparr>remoteHeap := [5 \<mapsto> (remoteOp0 Remote_COMPLETED)\<lparr>remoteResponse := Some 3\<rparr>],
              trace := [Transport_poll, InMessage_strip 3 32, OutMessage_cancel 4]\<rparr>)"
    by (simp add: processMessage_def Let_def callerWorld_def remoteOp0_def protocol0_def
        header0_def)
  from processMessage_routes [where P = protocol0 and env = quiet and before = "[(7, header0 0)]"
      and m = 3 and h = "header0 (- 1)" and after = "[(9, header0 1)]"
      and w = "OpManager_ctor 1 1",
      THEN conjunct2, THEN conjunct2, THEN conjunct2, THEN conjunct2, THEN conjunct2,
      THEN conjunct1]
  have 5: "poll protocol0 quiet [(7, header0 0), (3, header0 (- 1)), (9, header0 1)]
       (OpManager_ctor 1 1)
     = Inr ((OpManager_ctor 1 1)
         \<lparr>pendingServerOps := [requestOp quiet 7 (header0 0), requestOp quiet 9 (header0 1)],
          trace := [Transport_poll, InMessage_strip 7 32, InMessage_strip 3 32,
                    InMessage_release 3, InMessage_strip 9 32]\<rparr>)"
    by (simp add: processMessage_def Let_def OpManager_ctor_def protocol0_def header0_def)
  from processMessage_routes [where P = protocol0 and env = quiet and w = "OpManager_ctor 1 1",
      THEN conjunct2, THEN conjunct2, THEN conjunct2, THEN conjunct2, THEN conjunct2,
      THEN conjunct2, THEN conjunct1]
  have 6: "poll protocol0 quiet [] (OpManager_ctor 1 1)
     = Inr ((OpManager_ctor 1 1)\<lparr>trace := [Transport_poll]\<rparr>)"
    by (simp add: OpManager_ctor_def)
  show ?thesis by (intro conjI 1 2 3 4 5 6)
qed

section \<open>The states of a RemoteOp\<close>

text \<open>
  C5 says that across any sequence of \<open>send\<close>, \<open>isReady\<close> and \<open>poll\<close> calls the state of a
  \<open>RemoteOp\<close> never leaves \<open>COMPLETED\<close> or \<open>FAILED\<close>. The code has no such guard: \<open>poll\<close>
  sets the state of the registered op to \<open>COMPLETED\<close> whatever it was, so a response that
  arrives after \<open>isReady\<close> has recorded \<open>FAILED\<close> moves the op from \<open>FAILED\<close> to \<open>COMPLETED\<close>;
  and \<open>send\<close> stores \<open>IN_PROGRESS\<close> whatever the state was, so a second \<open>send\<close> on a
  \<open>COMPLETED\<close> op moves it back to \<open>IN_PROGRESS\<close>.
\<close>

theorem RemoteOp_state_counterexample:
  "remoteStateAt 5
      (run protocol0
         [Call_RemoteOp 5, Call_send quiet 5 9, Call_isReady (envWith Status_FAILED False) 5]
         (start 1 1))
     = Some Remote_FAILED
   \<and> remoteStateAt 5
      (run protocol0
         [Call_RemoteOp 5, Call_send quiet 5 9, Call_isReady (envWith Status_FAILED False) 5,
          Call_poll quiet [(3, header0 (- 1))]]
         (start 1 1))
     = Some Remote_COMPLETED
   \<and> remoteStateAt 5
      (run protocol0
         [Call_RemoteOp 5, Call_send quiet 5 9, Call_poll quiet [(3, header0 (- 1))]]
         (start 1 1))
     = Some Remote_COMPLETED
   \<and> remoteStateAt 5
      (run protocol0
         [Call_RemoteOp 5, Call_send quiet 5 9, Call_poll quiet [(3, header0 (- 1))],
          Call_send quiet 5 9]
         (start 1 1))
     = Some Remote_IN_PROGRESS"
  by (simp add: remoteStateAt_def fixture_defs code_defs)

text \<open>
  C5, amended. Across any sequence of \<open>send\<close>, \<open>isReady\<close> and \<open>poll\<close> calls in which every
  \<open>send\<close> is made on an op that is \<open>NOT_STARTED\<close>, the state of every \<open>RemoteOp\<close> only moves
  forward in the order \<open>NOT_STARTED\<close>, \<open>IN_PROGRESS\<close>, \<open>FAILED\<close>, \<open>COMPLETED\<close>: it never goes
  back, \<open>COMPLETED\<close> is final, and a \<open>FAILED\<close> op stays \<open>FAILED\<close> or becomes \<open>COMPLETED\<close>.
\<close>

theorem RemoteOp_state_order:
  assumes "list_all remoteCall calls" and "sendsAllowed P calls s" and "run P calls s = Inr s'"
    and "remoteHeap (fst s) p = Some r"
  shows "\<exists>r'. remoteHeap (fst s') p = Some r' \<and>
              remoteRank (remoteState r) \<le> remoteRank (remoteState r') \<and>
              (remoteState r = Remote_COMPLETED \<longrightarrow> remoteState r' = Remote_COMPLETED) \<and>
              (remoteState r = Remote_FAILED \<longrightarrow>
                 remoteState r' = Remote_FAILED \<or> remoteState r' = Remote_COMPLETED) \<and>
              (remoteState r' = Remote_NOT_STARTED \<longrightarrow> remoteState r = Remote_NOT_STARTED)"
proof -
  from run_rank [OF assms] obtain r'
    where h: "remoteHeap (fst s') p = Some r'"
      and le: "remoteRank (remoteState r) \<le> remoteRank (remoteState r')"
    by blast
  have "remoteState r = Remote_COMPLETED \<longrightarrow> remoteState r' = Remote_COMPLETED"
    using le by (cases "remoteState r'") auto
  moreover have "remoteState r = Remote_FAILED \<longrightarrow>
                 remoteState r' = Remote_FAILED \<or> remoteState r' = Remote_COMPLETED"
    using le by (cases "remoteState r'") auto
  moreover have "remoteState r' = Remote_NOT_STARTED \<longrightarrow> remoteState r = Remote_NOT_STARTED"
    using le by (cases "remoteState r") auto
  ultimately show ?thesis using h le by blast
qed

theorem RemoteOp_state_order_witness:
  "remoteHeap (RemoteOp_ctor protocol0 5 (OpManager_ctor 1 1)) 5
     = Some \<lparr>remoteRequest = 0, remoteResponse = None, remoteOpId = OpId_default,
             remoteState = Remote_NOT_STARTED\<rparr>
   \<and> sendsAllowed protocol0 callerScript (RemoteOp_ctor protocol0 5 (OpManager_ctor 1 1), [])
   \<and> remoteStateAt 5
       (run protocol0 callerScript (RemoteOp_ctor protocol0 5 (OpManager_ctor 1 1), []))
     = Some Remote_COMPLETED"
proof -
  have h: "remoteHeap (fst (RemoteOp_ctor protocol0 5 (OpManager_ctor 1 1), [])) 5
     = Some \<lparr>remoteRequest = 0, remoteResponse = None, remoteOpId = OpId_default,
             remoteState = Remote_NOT_STARTED\<rparr>"
    by (simp add: RemoteOp_ctor_def OpManager_ctor_def)
  have c: "list_all remoteCall callerScript"
    by (simp add: callerScript_def)
  have a: "sendsAllowed protocol0 callerScript (RemoteOp_ctor protocol0 5 (OpManager_ctor 1 1), [])"
    by (simp add: fixture_defs code_defs)
  have r: "remoteStateAt 5
       (run protocol0 callerScript (RemoteOp_ctor protocol0 5 (OpManager_ctor 1 1), []))
     = Some Remote_COMPLETED"
    by (simp add: remoteStateAt_def fixture_defs code_defs)
  then obtain s' where s': "run protocol0 callerScript
      (RemoteOp_ctor protocol0 5 (OpManager_ctor 1 1), []) = Inr s'"
    by (auto simp: remoteStateAt_def split: sum.splits)
  from RemoteOp_state_order [OF c a s' h] h a r show ?thesis by simp
qed

section \<open>ServerOp::delegate\<close>

text \<open>
  C6. Let \<open>op\<close> be a \<open>ServerOp\<close> that the application holds, in a state that a sequence of
  calls reaches from a fresh manager. If \<open>op\<close> is non-empty, \<open>delegate\<close> sets the delegated
  flag, prepends to the response buffer a header with the operation id of the op, its
  stage plus one and its reply address in wire format, and sends the response buffer to
  the destination. While the delegated op is \<open>IN_PROGRESS\<close> and its request is not dropped,
  \<open>makeProgress\<close> reaches \<open>COMPLETED\<close> only when the status of the response buffer is
  \<open>COMPLETED\<close>: with the status \<open>SENT\<close> the op stays \<open>IN_PROGRESS\<close>, whereas the same op
  without the flag would be \<open>COMPLETED\<close>. On an empty op \<open>delegate\<close> changes nothing and
  emits the warning.
\<close>

theorem delegate_effect:
  assumes "run P calls (start tid firstSequence) = Inr (w, held)" and "op \<in> set held"
  shows "(ServerOp_bool op \<longrightarrow>
            (\<exists>req r. request op = Some req \<and> response op = Some r \<and>
               delegate P env destination op =
                 Inr (op\<lparr>delegated := True\<rparr>,
                      [OutMessage_prepend r
                         \<lparr>headerOpId = opId op, headerStageId = stageId op + 1,
                          headerReplyAddress = addressToWireFormat env (replyAddress op)\<rparr>,
                       OutMessage_send r destination]) \<and>
               (state op = IN_PROGRESS \<and> \<not> dropped env' req \<longrightarrow>
                  makeProgress P env' (op\<lparr>delegated := True\<rparr>) =
                    (if getStatus env' r = Status_COMPLETED
                     then Inr (COMPLETED, op\<lparr>delegated := True, state := COMPLETED\<rparr>,
                               if stageId op \<noteq> INITIAL_REQUEST_ID P
                               then [InMessage_acknowledge req] else [])
                     else if getStatus env' r = Status_FAILED
                     then Inr (FAILED, op\<lparr>delegated := True, state := FAILED\<rparr>,
                               [OutMessage_cancel r])
                     else Inr (IN_PROGRESS, op\<lparr>delegated := True\<rparr>, [])) \<and>
                  (getStatus env' r = Status_SENT \<longrightarrow>
                     makeProgress P env' (op\<lparr>delegated := False\<rparr>) =
                       Inr (COMPLETED, op\<lparr>delegated := False, state := COMPLETED\<rparr>,
                            if stageId op \<noteq> INITIAL_REQUEST_ID P
                            then [InMessage_acknowledge req] else [])))))
       \<and> (\<not> ServerOp_bool op \<longrightarrow>
            delegate P env destination op =
              Inr (op, [WARNING ''Calling delegate() on empty ServerOp; nothing will be sent.'']))"
proof -
  have "systemOk (w, held)"
    using run_systemOk [OF start_systemOk assms(1)] .
  with assms(2) have h: "heldOk op" by (simp add: systemOk_def list_all_iff)
  have 2: "\<not> ServerOp_bool op \<longrightarrow>
            delegate P env destination op =
              Inr (op, [WARNING ''Calling delegate() on empty ServerOp; nothing will be sent.''])"
    by (auto simp: ServerOp_bool_def delegate_def)
  have 1: "ServerOp_bool op \<longrightarrow>
            (\<exists>req r. request op = Some req \<and> response op = Some r \<and>
               delegate P env destination op =
                 Inr (op\<lparr>delegated := True\<rparr>,
                      [OutMessage_prepend r
                         \<lparr>headerOpId = opId op, headerStageId = stageId op + 1,
                          headerReplyAddress = addressToWireFormat env (replyAddress op)\<rparr>,
                       OutMessage_send r destination]) \<and>
               (state op = IN_PROGRESS \<and> \<not> dropped env' req \<longrightarrow>
                  makeProgress P env' (op\<lparr>delegated := True\<rparr>) =
                    (if getStatus env' r = Status_COMPLETED
                     then Inr (COMPLETED, op\<lparr>delegated := True, state := COMPLETED\<rparr>,
                               if stageId op \<noteq> INITIAL_REQUEST_ID P
                               then [InMessage_acknowledge req] else [])
                     else if getStatus env' r = Status_FAILED
                     then Inr (FAILED, op\<lparr>delegated := True, state := FAILED\<rparr>,
                               [OutMessage_cancel r])
                     else Inr (IN_PROGRESS, op\<lparr>delegated := True\<rparr>, [])) \<and>
                  (getStatus env' r = Status_SENT \<longrightarrow>
                     makeProgress P env' (op\<lparr>delegated := False\<rparr>) =
                       Inr (COMPLETED, op\<lparr>delegated := False, state := COMPLETED\<rparr>,
                            if stageId op \<noteq> INITIAL_REQUEST_ID P
                            then [InMessage_acknowledge req] else []))))"
  proof
    assume "ServerOp_bool op"
    with h have "claimedOk op" by (auto simp: heldOk_def ServerOp_bool_def)
    then obtain req r t where f: "request op = Some req" "response op = Some r"
      "transport op = Some t"
      by (auto simp: claimedOk_def)
    from f delegate_fields [OF f, of P env destination]
      makeProgress_after_delegate [OF f(1,2), of env' P]
    show "\<exists>req r. request op = Some req \<and> response op = Some r \<and>
               delegate P env destination op =
                 Inr (op\<lparr>delegated := True\<rparr>,
                      [OutMessage_prepend r
                         \<lparr>headerOpId = opId op, headerStageId = stageId op + 1,
                          headerReplyAddress = addressToWireFormat env (replyAddress op)\<rparr>,
                       OutMessage_send r destination]) \<and>
               (state op = IN_PROGRESS \<and> \<not> dropped env' req \<longrightarrow>
                  makeProgress P env' (op\<lparr>delegated := True\<rparr>) =
                    (if getStatus env' r = Status_COMPLETED
                     then Inr (COMPLETED, op\<lparr>delegated := True, state := COMPLETED\<rparr>,
                               if stageId op \<noteq> INITIAL_REQUEST_ID P
                               then [InMessage_acknowledge req] else [])
                     else if getStatus env' r = Status_FAILED
                     then Inr (FAILED, op\<lparr>delegated := True, state := FAILED\<rparr>,
                               [OutMessage_cancel r])
                     else Inr (IN_PROGRESS, op\<lparr>delegated := True\<rparr>, [])) \<and>
                  (getStatus env' r = Status_SENT \<longrightarrow>
                     makeProgress P env' (op\<lparr>delegated := False\<rparr>) =
                       Inr (COMPLETED, op\<lparr>delegated := False, state := COMPLETED\<rparr>,
                            if stageId op \<noteq> INITIAL_REQUEST_ID P
                            then [InMessage_acknowledge req] else [])))"
      by blast
  qed
  show ?thesis by (intro conjI 1 2)
qed

theorem delegate_effect_witness:
  "run protocol0 claimScript (start 1 1) = Inr (claimedWorld, [receivedOp])
   \<and> ServerOp_bool receivedOp
   \<and> delegate protocol0 quiet 9 receivedOp
     = Inr (receivedOp\<lparr>delegated := True\<rparr>,
            [OutMessage_prepend 0 (header0 2), OutMessage_send 0 9])
   \<and> makeProgress protocol0 (envWith Status_SENT False) (receivedOp\<lparr>delegated := True\<rparr>)
     = Inr (IN_PROGRESS, receivedOp\<lparr>delegated := True\<rparr>, [])
   \<and> makeProgress protocol0 (envWith Status_COMPLETED False) (receivedOp\<lparr>delegated := True\<rparr>)
     = Inr (COMPLETED, receivedOp\<lparr>delegated := True, state := COMPLETED\<rparr>,
            [InMessage_acknowledge 7])
   \<and> makeProgress protocol0 (envWith Status_SENT False) receivedOp
     = Inr (COMPLETED, receivedOp\<lparr>state := COMPLETED\<rparr>, [InMessage_acknowledge 7])
   \<and> run protocol0 [Call_ServerOp] (start 1 1) = Inr (OpManager_ctor 1 1, [ServerOp_empty])
   \<and> delegate protocol0 quiet 9 ServerOp_empty
     = Inr (ServerOp_empty,
            [WARNING ''Calling delegate() on empty ServerOp; nothing will be sent.''])"
proof -
  have f: "ServerOp_bool receivedOp" "state receivedOp = IN_PROGRESS"
    "request receivedOp = Some 7" "response receivedOp = Some 0"
    "\<not> ServerOp_bool ServerOp_empty" "receivedOp\<lparr>delegated := False\<rparr> = receivedOp"
    by (simp_all add: receivedOp_def claimedOp_def ServerOp_bool_def)
  have e: "\<not> dropped (envWith Status_SENT False) 7" "\<not> dropped (envWith Status_COMPLETED False) 7"
    "getStatus (envWith Status_SENT False) 0 = Status_SENT"
    "getStatus (envWith Status_COMPLETED False) 0 = Status_COMPLETED"
    by (simp_all add: envWith_def)
  have hd: "\<lparr>headerOpId = opId receivedOp, headerStageId = stageId receivedOp + 1,
        headerReplyAddress = addressToWireFormat quiet (replyAddress receivedOp)\<rparr> = header0 2"
    "stageId receivedOp \<noteq> INITIAL_REQUEST_ID protocol0"
    by (simp_all add: receivedOp_def claimedOp_def header0_def quiet_def envWith_def protocol0_def)
  note t1 = delegate_effect [OF run_claim, of receivedOp quiet 9 "envWith Status_SENT False",
      THEN conjunct1, THEN mp, OF _ f(1)]
  note t2 = delegate_effect [OF run_claim, of receivedOp quiet 9 "envWith Status_COMPLETED False",
      THEN conjunct1, THEN mp, OF _ f(1)]
  note t3 = delegate_effect [OF run_empty_op, of ServerOp_empty quiet 9 quiet,
      THEN conjunct2, THEN mp, OF _ f(5)]
  from t1 f e hd have 1: "delegate protocol0 quiet 9 receivedOp
     = Inr (receivedOp\<lparr>delegated := True\<rparr>,
            [OutMessage_prepend 0 (header0 2), OutMessage_send 0 9])"
    and 2: "makeProgress protocol0 (envWith Status_SENT False) (receivedOp\<lparr>delegated := True\<rparr>)
     = Inr (IN_PROGRESS, receivedOp\<lparr>delegated := True\<rparr>, [])"
    and 4: "makeProgress protocol0 (envWith Status_SENT False) receivedOp
     = Inr (COMPLETED, receivedOp\<lparr>state := COMPLETED\<rparr>, [InMessage_acknowledge 7])"
    by auto
  from t2 f e hd
  have 3: "makeProgress protocol0 (envWith Status_COMPLETED False) (receivedOp\<lparr>delegated := True\<rparr>)
     = Inr (COMPLETED, receivedOp\<lparr>delegated := True, state := COMPLETED\<rparr>,
            [InMessage_acknowledge 7])"
    by auto
  from t3 have 5: "delegate protocol0 quiet 9 ServerOp_empty
     = Inr (ServerOp_empty,
            [WARNING ''Calling delegate() on empty ServerOp; nothing will be sent.''])"
    by simp
  from run_claim f(1) 1 2 3 4 run_empty_op 5 show ?thesis by (simp only: simp_thms)
qed

section \<open>OpManager::receiveServerOp\<close>

text \<open>
  C7. On an empty pending queue \<open>receiveServerOp\<close> returns an empty \<open>ServerOp\<close> (false as
  a boolean) and changes nothing. Otherwise it removes the front of the queue and returns
  it with a response buffer that it has allocated and in which it has reserved the space
  of a header, with the back-reference to the manager, and in state \<open>IN_PROGRESS\<close>.
  \<open>n\<close> calls in a row return the first \<open>n\<close> pending ops in the order of the queue (and
  empty ops once the queue is exhausted), and \<open>poll\<close> puts the requests at the back of the
  queue in the order in which the transport hands them out.
\<close>

theorem receiveServerOp_fifo:
  "(pendingServerOps w = [] \<longrightarrow>
      receiveServerOp P w = (ServerOp_empty, w) \<and> \<not> ServerOp_bool (fst (receiveServerOp P w)))
   \<and> (pendingServerOps w = front # rest \<longrightarrow>
      receiveServerOp P w =
        (front\<lparr>response := Some (allocated w), transport := Some (), state := IN_PROGRESS\<rparr>,
         w\<lparr>pendingServerOps := rest, allocated := Suc (allocated w),
           trace := trace w @
             [Transport_alloc (allocated w), OutMessage_reserve (allocated w) (sizeofHeader P)]\<rparr>))
   \<and> fst (receiveServerOps P n w) =
       map (\<lambda>i. if i < length (pendingServerOps w)
                 then (pendingServerOps w ! i)
                        \<lparr>response := Some (allocated w + i), transport := Some (),
                         state := IN_PROGRESS\<rparr>
                 else ServerOp_empty) [0..<n]
   \<and> (poll P env received w = Inr w' \<longrightarrow>
      pendingServerOps w' = pendingServerOps w @
        map (\<lambda>mh. requestOp env (fst mh) (snd mh))
          (filter (\<lambda>mh. headerStageId (snd mh) \<noteq> ULTIMATE_RESPONSE_ID P) received))"
proof -
  have 1: "pendingServerOps w = [] \<longrightarrow>
      receiveServerOp P w = (ServerOp_empty, w) \<and> \<not> ServerOp_bool (fst (receiveServerOp P w))"
    by (simp add: receiveServerOp_empty ServerOp_bool_def)
  have 2: "pendingServerOps w = front # rest \<longrightarrow>
      receiveServerOp P w =
        (front\<lparr>response := Some (allocated w), transport := Some (), state := IN_PROGRESS\<rparr>,
         w\<lparr>pendingServerOps := rest, allocated := Suc (allocated w),
           trace := trace w @
             [Transport_alloc (allocated w), OutMessage_reserve (allocated w) (sizeofHeader P)]\<rparr>)"
    by (simp add: receiveServerOp_front)
  note 3 = receiveServerOps_order [of P n w]
  have 4: "poll P env received w = Inr w' \<longrightarrow>
      pendingServerOps w' = pendingServerOps w @
        map (\<lambda>mh. requestOp env (fst mh) (snd mh))
          (filter (\<lambda>mh. headerStageId (snd mh) \<noteq> ULTIMATE_RESPONSE_ID P) received)"
    using poll_pending [of P env received w w'] by blast
  show ?thesis by (intro conjI 1 2 3 4)
qed

theorem receiveServerOp_fifo_witness:
  "receiveServerOp protocol0 (OpManager_ctor 1 1) = (ServerOp_empty, OpManager_ctor 1 1)
   \<and> poll protocol0 quiet [(7, header0 0), (3, header0 (- 1)), (9, header0 1)]
       (OpManager_ctor 1 1) = Inr queueWorld
   \<and> pendingServerOps queueWorld = [requestOp quiet 7 (header0 0), requestOp quiet 9 (header0 1)]
   \<and> receiveServerOp protocol0 queueWorld
     = ((requestOp quiet 7 (header0 0))
          \<lparr>response := Some 0, transport := Some (), state := IN_PROGRESS\<rparr>,
        queueWorld\<lparr>pendingServerOps := [requestOp quiet 9 (header0 1)], allocated := 1,
          trace := trace queueWorld @ [Transport_alloc 0, OutMessage_reserve 0 32]\<rparr>)
   \<and> fst (receiveServerOps protocol0 (Suc (Suc (Suc 0))) queueWorld)
     = [(requestOp quiet 7 (header0 0))
          \<lparr>response := Some 0, transport := Some (), state := IN_PROGRESS\<rparr>,
        (requestOp quiet 9 (header0 1))
          \<lparr>response := Some 1, transport := Some (), state := IN_PROGRESS\<rparr>,
        ServerOp_empty]"
proof -
  have p: "pendingServerOps (OpManager_ctor 1 1) = []"
    "pendingServerOps queueWorld = [requestOp quiet 7 (header0 0), requestOp quiet 9 (header0 1)]"
    "allocated queueWorld = 0" "sizeofHeader protocol0 = 32"
    by (simp_all add: OpManager_ctor_def queueWorld_def worldWith_def protocol0_def)
  from receiveServerOp_fifo [of "OpManager_ctor 1 1" protocol0, THEN conjunct1] p
  have 1: "receiveServerOp protocol0 (OpManager_ctor 1 1) = (ServerOp_empty, OpManager_ctor 1 1)"
    by simp
  from receiveServerOp_fifo [of queueWorld protocol0 "requestOp quiet 7 (header0 0)"
      "[requestOp quiet 9 (header0 1)]", THEN conjunct2, THEN conjunct1] p
  have 2: "receiveServerOp protocol0 queueWorld
     = ((requestOp quiet 7 (header0 0))
          \<lparr>response := Some 0, transport := Some (), state := IN_PROGRESS\<rparr>,
        queueWorld\<lparr>pendingServerOps := [requestOp quiet 9 (header0 1)], allocated := 1,
          trace := trace queueWorld @ [Transport_alloc 0, OutMessage_reserve 0 32]\<rparr>)"
    by simp
  from receiveServerOp_fifo [of queueWorld protocol0 _ _ "Suc (Suc (Suc 0))",
      THEN conjunct2, THEN conjunct2, THEN conjunct1] p
  have 3: "fst (receiveServerOps protocol0 (Suc (Suc (Suc 0))) queueWorld)
     = [(requestOp quiet 7 (header0 0))
          \<lparr>response := Some 0, transport := Some (), state := IN_PROGRESS\<rparr>,
        (requestOp quiet 9 (header0 1))
          \<lparr>response := Some 1, transport := Some (), state := IN_PROGRESS\<rparr>,
        ServerOp_empty]"
    by simp
  from 1 poll_queue p(2) 2 3 show ?thesis by (simp only: simp_thms)
qed

section \<open>RemoteOp::isReady\<close>

text \<open>
  C8. \<open>isReady\<close> returns true, and changes nothing, when the state is \<open>COMPLETED\<close> or
  \<open>FAILED\<close>; when the state is \<open>IN_PROGRESS\<close> and the status of the request buffer is
  \<open>FAILED\<close>, it sets the state to \<open>FAILED\<close> and returns true; in every other case of
  \<open>NOT_STARTED\<close> or \<open>IN_PROGRESS\<close> it returns false and changes nothing. So it returns true
  if and only if the state it leaves is \<open>COMPLETED\<close> or \<open>FAILED\<close>.
\<close>

theorem isReady_cases:
  "(remoteState r = Remote_COMPLETED \<or> remoteState r = Remote_FAILED \<longrightarrow>
      isReady env r = (True, r))
   \<and> (remoteState r = Remote_IN_PROGRESS \<and> getStatus env (remoteRequest r) = Status_FAILED \<longrightarrow>
      isReady env r = (True, r\<lparr>remoteState := Remote_FAILED\<rparr>))
   \<and> (remoteState r = Remote_IN_PROGRESS \<and> getStatus env (remoteRequest r) \<noteq> Status_FAILED \<longrightarrow>
      isReady env r = (False, r))
   \<and> (remoteState r = Remote_NOT_STARTED \<longrightarrow> isReady env r = (False, r))
   \<and> (fst (isReady env r) \<longleftrightarrow>
        remoteState (snd (isReady env r)) = Remote_COMPLETED \<or>
        remoteState (snd (isReady env r)) = Remote_FAILED)"
  by (cases "remoteState r") (auto simp: isReady_def)

theorem isReady_cases_witness:
  "isReady (envWith Status_SENT False) (remoteOp0 Remote_COMPLETED)
     = (True, remoteOp0 Remote_COMPLETED)
   \<and> isReady (envWith Status_SENT False) (remoteOp0 Remote_FAILED)
     = (True, remoteOp0 Remote_FAILED)
   \<and> isReady (envWith Status_FAILED False) (remoteOp0 Remote_IN_PROGRESS)
     = (True, remoteOp0 Remote_FAILED)
   \<and> isReady (envWith Status_SENT False) (remoteOp0 Remote_IN_PROGRESS)
     = (False, remoteOp0 Remote_IN_PROGRESS)
   \<and> isReady (envWith Status_FAILED False) (remoteOp0 Remote_NOT_STARTED)
     = (False, remoteOp0 Remote_NOT_STARTED)"
  using isReady_cases [of "remoteOp0 Remote_COMPLETED" "envWith Status_SENT False"]
    isReady_cases [of "remoteOp0 Remote_FAILED" "envWith Status_SENT False"]
    isReady_cases [of "remoteOp0 Remote_IN_PROGRESS" "envWith Status_FAILED False"]
    isReady_cases [of "remoteOp0 Remote_IN_PROGRESS" "envWith Status_SENT False"]
    isReady_cases [of "remoteOp0 Remote_NOT_STARTED" "envWith Status_FAILED False"]
  by (simp add: remoteOp0_def envWith_def)

section \<open>ServerOp::makeProgress on a terminal op\<close>




section \<open>The pending queue\<close>

text \<open>
  C10. In every state that a sequence of calls reaches from a fresh manager, every op of
  the pending queue has a request buffer, no response buffer, no back-reference, the
  state \<open>NOT_STARTED\<close>, and neither flag set; so its destructor, with or without the lock
  held, releases its buffers at once and leaves the detached list alone, and
  \<open>~OpManager\<close> returns, having released the buffers of all pending and detached ops.
  No call other than \<open>receiveServerOp\<close> touches an op of the queue (the queue only grows
  at the back), and \<open>makeProgress\<close>, \<open>reply\<close> and \<open>delegate\<close> never set a response buffer, a
  back-reference or the state \<open>IN_PROGRESS\<close>.
\<close>

theorem pending_ops_released_at_once:
  assumes "run P calls (start tid firstSequence) = Inr (w, held)"
  shows "(\<forall>op \<in> set (pendingServerOps w).
            request op \<noteq> None \<and> response op = None \<and> transport op = None \<and>
            state op = NOT_STARTED \<and> \<not> detached op \<and> \<not> delegated op \<and>
            ServerOp_dtor locked op v = Inr (v\<lparr>trace := trace v @ releaseBuffers op\<rparr>))
       \<and> OpManager_dtor w =
           Inr (w\<lparr>remoteOps := Map.empty, pendingServerOps := [], detachedServerOps := [],
                  trace := trace w @
                    concat (map releaseBuffers (pendingServerOps w @ detachedServerOps w))\<rparr>)
       \<and> (c \<noteq> Call_receiveServerOp \<and> apiCall P c (w, held) = Inr s' \<longrightarrow>
            (\<exists>new. pendingServerOps (fst s') = pendingServerOps w @ new))
       \<and> (makeProgress P env x = Inr (st, x', evs) \<longrightarrow>
            response x' = response x \<and> transport x' = transport x \<and>
            (state x' = IN_PROGRESS \<longrightarrow> state x = IN_PROGRESS))
       \<and> (reply P env y = Inr (y', evs') \<longrightarrow> y' = y)
       \<and> (delegate P env destination z = Inr (z', evs'') \<longrightarrow>
            response z' = response z \<and> transport z' = transport z \<and> state z' = state z)"
proof -
  have ok: "systemOk (w, held)"
    using run_systemOk [OF start_systemOk assms] .
  then have p: "list_all pendingOk (pendingServerOps w)"
    and d: "list_all detachedOk (detachedServerOps w)"
    by (simp_all add: systemOk_def)
  have 1: "\<forall>op \<in> set (pendingServerOps w).
            request op \<noteq> None \<and> response op = None \<and> transport op = None \<and>
            state op = NOT_STARTED \<and> \<not> detached op \<and> \<not> delegated op \<and>
            ServerOp_dtor locked op v = Inr (v\<lparr>trace := trace v @ releaseBuffers op\<rparr>)"
  proof
    fix op assume "op \<in> set (pendingServerOps w)"
    with p have q: "pendingOk op" by (simp add: list_all_iff)
    then show "request op \<noteq> None \<and> response op = None \<and> transport op = None \<and>
            state op = NOT_STARTED \<and> \<not> detached op \<and> \<not> delegated op \<and>
            ServerOp_dtor locked op v = Inr (v\<lparr>trace := trace v @ releaseBuffers op\<rparr>)"
      using dtor_locked_released [of op locked v] by (simp add: pendingOk_def)
  qed
  note 2 = OpManager_dtor_ok [OF ok]
  have 3: "c \<noteq> Call_receiveServerOp \<and> apiCall P c (w, held) = Inr s' \<longrightarrow>
            (\<exists>new. pendingServerOps (fst s') = pendingServerOps w @ new)"
    using apiCall_pending [of "(w, held)" P c s'] d by auto
  have 4: "makeProgress P env x = Inr (st, x', evs) \<longrightarrow>
            response x' = response x \<and> transport x' = transport x \<and>
            (state x' = IN_PROGRESS \<longrightarrow> state x = IN_PROGRESS)"
    using makeProgress_result [of P env x st x' evs] by auto
  have 5: "reply P env y = Inr (y', evs') \<longrightarrow> y' = y"
    by (auto simp: reply_def split: option.splits)
  have 6: "delegate P env destination z = Inr (z', evs'') \<longrightarrow>
            response z' = response z \<and> transport z' = transport z \<and> state z' = state z"
    by (auto simp: delegate_def split: option.splits)
  show ?thesis by (intro conjI 1 2 3 4 5 6)
qed

theorem pending_ops_released_at_once_witness:
  "run protocol0 [Call_poll quiet [(7, header0 1)]] (start 1 1) = Inr (requestWorld, [])
   \<and> pendingServerOps requestWorld = [requestOp quiet 7 (header0 1)]
   \<and> request (requestOp quiet 7 (header0 1)) = Some 7
   \<and> response (requestOp quiet 7 (header0 1)) = None
   \<and> transport (requestOp quiet 7 (header0 1)) = None
   \<and> state (requestOp quiet 7 (header0 1)) = NOT_STARTED
   \<and> ServerOp_dtor True (requestOp quiet 7 (header0 1)) requestWorld
       = Inr (requestWorld\<lparr>trace := trace requestWorld @ [InMessage_release 7]\<rparr>)
   \<and> OpManager_dtor requestWorld
       = Inr (requestWorld\<lparr>pendingServerOps := [],
                trace := trace requestWorld @ [InMessage_release 7]\<rparr>)
   \<and> apiCall protocol0 Call_ServerOp (requestWorld, []) = Inr (requestWorld, [ServerOp_empty])
   \<and> makeProgress protocol0 (envWith Status_FAILED False) receivedOp
       = Inr (FAILED, receivedOp\<lparr>state := FAILED\<rparr>, [OutMessage_cancel 0])
   \<and> reply protocol0 quiet receivedOp
       = Inr (receivedOp, [OutMessage_prepend 0 (header0 (- 1)), OutMessage_send 0 2])
   \<and> delegate protocol0 quiet 9 receivedOp
       = Inr (receivedOp\<lparr>delegated := True\<rparr>,
              [OutMessage_prepend 0 (header0 2), OutMessage_send 0 9])"
proof -
  note t = pending_ops_released_at_once [OF run_request,
      where locked = True and v = requestWorld and c = Call_ServerOp
        and s' = "(requestWorld, [ServerOp_empty])"]
  have p: "pendingServerOps requestWorld = [requestOp quiet 7 (header0 1)]"
    and d: "detachedServerOps requestWorld = []"
    by (simp_all add: requestWorld_def worldWith_def)
  have rb: "releaseBuffers (requestOp quiet 7 (header0 1)) = [InMessage_release 7]"
    by (simp add: releaseBuffers_def requestOp_def ServerOp_empty_def)
  have f: "request (requestOp quiet 7 (header0 1)) = Some 7"
    "response (requestOp quiet 7 (header0 1)) = None"
    "transport (requestOp quiet 7 (header0 1)) = None"
    "state (requestOp quiet 7 (header0 1)) = NOT_STARTED"
    by (simp_all add: requestOp_def ServerOp_empty_def)
  from t [THEN conjunct1] p rb
  have 1: "ServerOp_dtor True (requestOp quiet 7 (header0 1)) requestWorld
       = Inr (requestWorld\<lparr>trace := trace requestWorld @ [InMessage_release 7]\<rparr>)"
    by simp
  from t [THEN conjunct2, THEN conjunct1] p d rb
  have 2: "OpManager_dtor requestWorld
       = Inr (requestWorld\<lparr>pendingServerOps := [],
                trace := trace requestWorld @ [InMessage_release 7]\<rparr>)"
    by (simp add: requestWorld_def worldWith_def)
  have 3: "apiCall protocol0 Call_ServerOp (requestWorld, []) = Inr (requestWorld, [ServerOp_empty])"
    by simp
  have 4: "makeProgress protocol0 (envWith Status_FAILED False) receivedOp
       = Inr (FAILED, receivedOp\<lparr>state := FAILED\<rparr>, [OutMessage_cancel 0])"
    by (simp add: makeProgress_def returnState_def outState_def receivedOp_def claimedOp_def
        envWith_def)
  have 5: "reply protocol0 quiet receivedOp
       = Inr (receivedOp, [OutMessage_prepend 0 (header0 (- 1)), OutMessage_send 0 2])"
    by (simp add: reply_def receivedOp_def claimedOp_def quiet_def envWith_def header0_def
        protocol0_def)
  have 6: "delegate protocol0 quiet 9 receivedOp
       = Inr (receivedOp\<lparr>delegated := True\<rparr>,
              [OutMessage_prepend 0 (header0 2), OutMessage_send 0 9])"
    by (simp add: delegate_def receivedOp_def claimedOp_def quiet_def envWith_def header0_def)
  from run_request p f 1 2 3 4 5 6 show ?thesis by (simp only: simp_thms)
qed

end
